theory Spec2Isabelle
  imports Complex_Main
begin

section \<open>The cotton mixing summary engine\<close>

text \<open>
  A shallow embedding of the aggregation code behind the route
  \<^verbatim>\<open>/api/cotton-mixing-summary\<close> of the cotton API server, and of the helpers
  \<^verbatim>\<open>parseCottonVersion\<close>, \<^verbatim>\<open>PERIOD_FORMATTERS\<close> and \<^verbatim>\<open>buildPeriodDescriptor\<close>.

  Conventions of the model.
  \<^item> A JavaScript string is a \<^typ>\<open>string\<close> of ASCII characters; upper-casing, white space
    and digits are the ASCII ones.
  \<^item> A JavaScript number is \<open>NaN\<close> or a finite value, and finite values are exact
    rationals: the rounding error of binary floating point and the infinities are outside
    the model.
  \<^item> A column of a fetched row that the code reads as text is a \<^typ>\<open>string option\<close>
    (\<open>None\<close> is \<open>null\<close>); a column on which the code calls \<^verbatim>\<open>Number\<close> or tests
    truthiness is a dynamically typed value.
\<close>

subsection \<open>Characters and strings\<close>

definition is_digit :: "char \<Rightarrow> bool" where
  "is_digit c = (48 \<le> (of_char c :: nat) \<and> (of_char c :: nat) \<le> 57)"

definition is_space :: "char \<Rightarrow> bool" where
  \<comment> \<open>the ASCII members of the class \<^verbatim>\<open>\s\<close>, which is also what \<^verbatim>\<open>trim\<close> removes\<close>
  "is_space c = ((9 \<le> (of_char c :: nat) \<and> (of_char c :: nat) \<le> 13) \<or> (of_char c :: nat) = 32)"

definition is_line_terminator :: "char \<Rightarrow> bool" where
  \<comment> \<open>the characters that \<^verbatim>\<open>.\<close> does not match\<close>
  "is_line_terminator c = ((of_char c :: nat) = 10 \<or> (of_char c :: nat) = 13)"

definition upper_char :: "char \<Rightarrow> char" where
  "upper_char c =
     (if 97 \<le> (of_char c :: nat) \<and> (of_char c :: nat) \<le> 122
      then char_of ((of_char c :: nat) - 32) else c)"

definition toUpperCase :: "string \<Rightarrow> string" where
  "toUpperCase s = map upper_char s"

definition trim :: "string \<Rightarrow> string" where
  "trim s = rev (dropWhile is_space (rev (dropWhile is_space s)))"

definition digit_val :: "char \<Rightarrow> nat" where
  "digit_val c = (of_char c :: nat) - 48"

definition nat_of_digits :: "string \<Rightarrow> nat" where
  \<comment> \<open>\<^verbatim>\<open>parseInt(ds, 10)\<close> on a non-empty string of digits\<close>
  "nat_of_digits ds = foldl (\<lambda>n c. 10 * n + digit_val c) 0 ds"

subsection \<open>Blend-version parsing\<close>

record cotton_version =
  groupKey :: string
  versionNumber :: "nat option"
  raw :: "string option"

definition NO_VERSION :: cotton_version where
  "NO_VERSION = \<lparr>groupKey = ''__NO_VERSION__'', versionNumber = None, raw = None\<rparr>"

text \<open>The pattern \<^verbatim>\<open>/^(\d{2})_(\d{2})_V(\d+)$/\<close>; the result holds the three groups.\<close>

fun match_yy_ul_vn :: "string \<Rightarrow> (string \<times> string \<times> string) option" where
  "match_yy_ul_vn (a # b # u1 # c # d # u2 # v # ds) =
     (if is_digit a \<and> is_digit b \<and> u1 = CHR ''_'' \<and> is_digit c \<and> is_digit d \<and> u2 = CHR ''_''
         \<and> v = CHR ''V'' \<and> ds \<noteq> [] \<and> list_all is_digit ds
      then Some ([a, b], [c, d], ds) else None)"
| "match_yy_ul_vn _ = None"

definition is_sep :: "char \<Rightarrow> bool" where
  \<comment> \<open>the class \<^verbatim>\<open>[\s\-_\/]\<close>\<close>
  "is_sep c = (is_space c \<or> c = CHR ''-'' \<or> c = CHR ''_'' \<or> c = CHR ''/'')"

definition is_marker :: "string \<Rightarrow> bool" where
  \<comment> \<open>\<^verbatim>\<open>V\d+$\<close> under the flag \<^verbatim>\<open>i\<close>\<close>
  "is_marker t =
     (case t of [] \<Rightarrow> False
      | v # ds \<Rightarrow> (v = CHR ''V'' \<or> v = CHR ''v'') \<and> ds \<noteq> [] \<and> list_all is_digit ds)"

definition tail_matches :: "string \<Rightarrow> bool" where
  \<comment> \<open>\<^verbatim>\<open>[\s\-_\/]*(V\d+)$\<close> anchored at the start of \<open>t\<close>: the separators are taken
      greedily, and giving one back never helps since a separator is not a \<^verbatim>\<open>V\<close>\<close>
  "tail_matches t = is_marker (dropWhile is_sep t)"

text \<open>
  \<^verbatim>\<open>(.*?)\<close> at a fixed start: the shortest run of characters other than line terminators
  after which the tail matches. The result is group 1 and the text of group 2.
\<close>

fun lazy_prefix :: "string \<Rightarrow> string \<Rightarrow> (string \<times> string) option" where
  "lazy_prefix acc [] = None"
| "lazy_prefix acc (c # cs) =
     (if tail_matches (c # cs) then Some (rev acc, dropWhile is_sep (c # cs))
      else if is_line_terminator c then None
      else lazy_prefix (c # acc) cs)"

text \<open>The match of \<^verbatim>\<open>/(.*?)(?:[\s\-_\/]*(V\d+))$/i\<close>: the leftmost start that succeeds.\<close>

fun version_match :: "string \<Rightarrow> (string \<times> string) option" where
  "version_match [] = None"
| "version_match (c # cs) =
     (case lazy_prefix [] (c # cs) of
        Some r \<Rightarrow> Some r
      | None \<Rightarrow> version_match cs)"

definition strip_trailing_seps :: "string \<Rightarrow> string" where
  \<comment> \<open>\<^verbatim>\<open>.replace(/[\s\-_\/]+$/g, "")\<close>\<close>
  "strip_trailing_seps s = rev (dropWhile is_sep (rev s))"

fun strip_marker :: "string \<Rightarrow> string" where
  \<comment> \<open>\<^verbatim>\<open>.replace(/[\s\-_\/]*(V\d+)$/i, "")\<close>: cut at the leftmost match\<close>
  "strip_marker [] = []"
| "strip_marker (c # cs) = (if tail_matches (c # cs) then [] else c # strip_marker cs)"

definition parseCottonVersion :: "string option \<Rightarrow> cotton_version" where
  "parseCottonVersion cottonVersionValue =
     (case cottonVersionValue of
        None \<Rightarrow> NO_VERSION
      | Some v \<Rightarrow>
          if v = [] then NO_VERSION
          else
            let trimmed = toUpperCase (trim v) in
            if trimmed = [] then NO_VERSION
            else
              (case match_yy_ul_vn trimmed of
                 Some (yy, ul, vn) \<Rightarrow>
                   \<lparr>groupKey = yy @ ''_'' @ ul, versionNumber = Some (nat_of_digits vn),
                    raw = Some trimmed\<rparr>
               | None \<Rightarrow>
                   (case version_match trimmed of
                      Some (baseRaw, marker) \<Rightarrow>
                        let base = trim (strip_trailing_seps baseRaw);
                            normalizedBase = (if base \<noteq> [] then base else trim (strip_marker trimmed));
                            versionLabel = toUpperCase marker;
                            digitsMatch = takeWhile is_digit (dropWhile (\<lambda>c. \<not> is_digit c) versionLabel)
                        in \<lparr>groupKey = (if normalizedBase \<noteq> [] then normalizedBase else trimmed),
                            versionNumber = (if digitsMatch \<noteq> [] then Some (nat_of_digits digitsMatch) else None),
                            raw = Some trimmed\<rparr>
                    | None \<Rightarrow> \<lparr>groupKey = trimmed, versionNumber = None, raw = Some trimmed\<rparr>)))"





subsection \<open>Numbers\<close>

text \<open>
  A number is \<open>NaN\<close> or finite. Addition and multiplication propagate \<open>NaN\<close>; a
  comparison with \<open>NaN\<close> is false. The code divides only under a guard that makes the
  divisor positive; a division by zero, whose result would be infinite, is \<open>NaN\<close> here.
\<close>

datatype jnum = NaN | Fin rat

instantiation jnum :: comm_monoid_add
begin

definition zero_jnum :: jnum where
  "zero_jnum = Fin 0"

fun plus_jnum :: "jnum \<Rightarrow> jnum \<Rightarrow> jnum" where
  "plus_jnum (Fin a) (Fin b) = Fin (a + b)"
| "plus_jnum _ _ = NaN"

instance
proof
  fix x y z :: jnum
  have "x + y = NaN" if "x = NaN \<or> y = NaN" for x y :: jnum
    using that by (cases x; cases y) auto
  show "0 + x = x"
    unfolding zero_jnum_def by (cases x) auto
  show "x + y = y + x"
    by (cases x; cases y) (auto simp: add.commute)
  show "x + y + z = x + (y + z)"
    by (cases x; cases y; cases z) (auto simp: add.assoc)
qed

end

fun jmul :: "jnum \<Rightarrow> jnum \<Rightarrow> jnum" where
  "jmul (Fin a) (Fin b) = Fin (a * b)"
| "jmul _ _ = NaN"

fun jsub :: "jnum \<Rightarrow> jnum \<Rightarrow> jnum" where
  "jsub (Fin a) (Fin b) = Fin (a - b)"
| "jsub _ _ = NaN"

fun jdiv :: "jnum \<Rightarrow> jnum \<Rightarrow> jnum" where
  "jdiv (Fin a) (Fin b) = (if b = 0 then NaN else Fin (a / b))"
| "jdiv _ _ = NaN"

fun jabs :: "jnum \<Rightarrow> jnum" where
  "jabs (Fin a) = Fin \<bar>a\<bar>"
| "jabs NaN = NaN"

fun jgt :: "jnum \<Rightarrow> jnum \<Rightarrow> bool" where
  \<comment> \<open>\<^verbatim>\<open>a > b\<close>\<close>
  "jgt (Fin a) (Fin b) = (a > b)"
| "jgt _ _ = False"

definition isNaN :: "jnum \<Rightarrow> bool" where
  "isNaN n = (n = NaN)"

definition or_zero :: "jnum \<Rightarrow> rat" where
  \<comment> \<open>\<^verbatim>\<open>n || 0\<close> for a number \<open>n\<close>: \<open>NaN\<close> and zero are falsy\<close>
  "or_zero n = (case n of NaN \<Rightarrow> 0 | Fin q \<Rightarrow> q)"

definition fixed_units :: "nat \<Rightarrow> rat \<Rightarrow> int" where
  \<comment> \<open>the integer \<open>n\<close> of \<^verbatim>\<open>toFixed(f)\<close> for \<open>x \<ge> 0\<close>: \<open>n / 10^f\<close> is nearest to \<open>x\<close>,
      the larger one on a tie\<close>
  "fixed_units f x = \<lfloor>x * 10 ^ f + 1 / 2\<rfloor>"

definition round_to :: "nat \<Rightarrow> rat \<Rightarrow> rat" where
  \<comment> \<open>the number that \<^verbatim>\<open>x.toFixed(f)\<close> denotes; the sign is taken off first and put back\<close>
  "round_to f x =
     (if \<bar>x\<bar> \<ge> 10 ^ 21 then x
      else if x < 0 then - (of_int (fixed_units f (- x)) / 10 ^ f)
      else of_int (fixed_units f x) / 10 ^ f)"

fun round2 :: "jnum \<Rightarrow> jnum" where
  \<comment> \<open>\<^verbatim>\<open>+(n).toFixed(2)\<close> and \<^verbatim>\<open>parseFloat(n.toFixed(2))\<close>\<close>
  "round2 NaN = NaN"
| "round2 (Fin q) = Fin (round_to 2 q)"

definition Math_round :: "rat \<Rightarrow> int" where
  \<comment> \<open>\<^verbatim>\<open>Math.round\<close>: to the nearest integer, a tie towards \<open>+\<infinity>\<close>\<close>
  "Math_round x = \<lfloor>x + 1 / 2\<rfloor>"

subsection \<open>Numbers as text\<close>

definition digit_char :: "nat \<Rightarrow> char" where
  "digit_char n = char_of (48 + n)"

fun show_nat :: "nat \<Rightarrow> string" where
  "show_nat n = (if n < 10 then [digit_char n] else show_nat (n div 10) @ [digit_char (n mod 10)])"

declare show_nat.simps [simp del]

definition show_int :: "int \<Rightarrow> string" where
  \<comment> \<open>\<^verbatim>\<open>String(n)\<close> for an integer \<open>n\<close> (below \<open>10^21\<close> in magnitude, where JavaScript
      still writes all digits)\<close>
  "show_int n = (if n < 0 then CHR ''-'' # show_nat (nat (- n)) else show_nat (nat n))"

fun frac_digits :: "nat \<Rightarrow> rat \<Rightarrow> string" where
  "frac_digits 0 r = []"
| "frac_digits (Suc k) r =
     (if r = 0 then []
      else digit_char (nat \<lfloor>r * 10\<rfloor>) # frac_digits k (r * 10 - of_int \<lfloor>r * 10\<rfloor>))"

definition show_num :: "rat \<Rightarrow> string" where
  \<comment> \<open>\<^verbatim>\<open>String(x)\<close> for a finite number with a short decimal expansion: the integer
      part, then the decimals if there are any (at most 17 are written)\<close>
  "show_num x =
     (let a = \<bar>x\<bar>; ip = \<lfloor>a\<rfloor>; fp = frac_digits 17 (a - of_int ip)
      in (if x < 0 then ''-'' else []) @ show_nat (nat ip) @ (if fp = [] then [] else CHR ''.'' # fp))"

definition pad2 :: "string \<Rightarrow> string" where
  \<comment> \<open>\<^verbatim>\<open>.padStart(2, "0")\<close>\<close>
  "pad2 s = replicate (2 - length s) (CHR ''0'') @ s"

definition toFixed2 :: "rat \<Rightarrow> string" where
  \<comment> \<open>\<^verbatim>\<open>x.toFixed(2)\<close> as text, for \<open>\<bar>x\<bar> < 10^21\<close>\<close>
  "toFixed2 x =
     (let n = nat (fixed_units 2 \<bar>x\<bar>)
      in (if x < 0 then ''-'' else []) @ show_nat (n div 100) @ ''.'' @ pad2 (show_nat (n mod 100)))"

text \<open>
  \<^verbatim>\<open>Number(s)\<close> on a string: white space is trimmed, the empty string is zero, and the
  rest must be a decimal literal (sign, digits, fraction, exponent) or an unsigned
  hexadecimal, octal or binary literal. The literal \<^verbatim>\<open>Infinity\<close> has no value here.
\<close>

fun str_exponent :: "string \<Rightarrow> int option" where
  "str_exponent [] = Some 0"
| "str_exponent (e # r) =
     (if e = CHR ''e'' \<or> e = CHR ''E'' then
        (case r of
           [] \<Rightarrow> None
         | s # ds \<Rightarrow>
             if s = CHR ''+'' then (if ds \<noteq> [] \<and> list_all is_digit ds then Some (int (nat_of_digits ds)) else None)
             else if s = CHR ''-'' then (if ds \<noteq> [] \<and> list_all is_digit ds then Some (- int (nat_of_digits ds)) else None)
             else (if list_all is_digit (s # ds) then Some (int (nat_of_digits (s # ds))) else None))
      else None)"

definition scale10 :: "rat \<Rightarrow> int \<Rightarrow> rat" where
  "scale10 x e = (if e \<ge> 0 then x * 10 ^ nat e else x / 10 ^ nat (- e))"

definition str_unsigned :: "string \<Rightarrow> jnum" where
  "str_unsigned s =
     (let ip = takeWhile is_digit s; r1 = dropWhile is_digit s;
          fp = (case r1 of [] \<Rightarrow> [] | c # r \<Rightarrow> if c = CHR ''.'' then takeWhile is_digit r else []);
          r2 = (case r1 of [] \<Rightarrow> [] | c # r \<Rightarrow> if c = CHR ''.'' then dropWhile is_digit r else r1)
      in if ip = [] \<and> fp = [] then NaN
         else (case str_exponent r2 of
                 None \<Rightarrow> NaN
               | Some e \<Rightarrow> Fin (scale10 (of_nat (nat_of_digits (ip @ fp)) / 10 ^ length fp) e)))"

definition radix_digit :: "nat \<Rightarrow> char \<Rightarrow> nat option" where
  "radix_digit b c =
     (let n = (of_char c :: nat);
          v = (if 48 \<le> n \<and> n \<le> 57 then Some (n - 48)
               else if 97 \<le> n \<and> n \<le> 102 then Some (n - 87)
               else if 65 \<le> n \<and> n \<le> 70 then Some (n - 55)
               else None)
      in case v of None \<Rightarrow> None | Some d \<Rightarrow> if d < b then Some d else None)"

definition str_radix :: "string \<Rightarrow> jnum option" where
  \<comment> \<open>\<^verbatim>\<open>0x\<close>, \<^verbatim>\<open>0o\<close> and \<^verbatim>\<open>0b\<close> literals; \<open>None\<close> when the string has no such prefix\<close>
  "str_radix s =
     (case s of
        z # x # ds \<Rightarrow>
          (let b = (if x = CHR ''x'' \<or> x = CHR ''X'' then 16
                    else if x = CHR ''o'' \<or> x = CHR ''O'' then 8
                    else if x = CHR ''b'' \<or> x = CHR ''B'' then (2::nat)
                    else 0)
           in if z = CHR ''0'' \<and> b \<noteq> 0 then
                Some (if ds \<noteq> [] \<and> list_all (\<lambda>c. radix_digit b c \<noteq> None) ds
                      then Fin (of_nat (foldl (\<lambda>n c. b * n + the (radix_digit b c)) 0 ds))
                      else NaN)
              else None)
      | _ \<Rightarrow> None)"

definition StringToNumber :: "string \<Rightarrow> jnum" where
  "StringToNumber s =
     (let t = trim s in
      if t = [] then Fin 0
      else (case str_radix t of
              Some n \<Rightarrow> n
            | None \<Rightarrow>
                (case t of
                   [] \<Rightarrow> Fin 0
                 | c # r \<Rightarrow>
                     if c = CHR ''+'' then str_unsigned r
                     else if c = CHR ''-'' then (case str_unsigned r of NaN \<Rightarrow> NaN | Fin q \<Rightarrow> Fin (- q))
                     else str_unsigned t)))"

subsection \<open>Dynamically typed values\<close>

datatype jsval = JUndef | JNull | JBool bool | JNum jnum | JStr string

fun truthy :: "jsval \<Rightarrow> bool" where
  "truthy JUndef = False"
| "truthy JNull = False"
| "truthy (JBool b) = b"
| "truthy (JNum NaN) = False"
| "truthy (JNum (Fin q)) = (q \<noteq> 0)"
| "truthy (JStr s) = (s \<noteq> [])"

fun Number :: "jsval \<Rightarrow> jnum" where
  "Number JUndef = NaN"
| "Number JNull = Fin 0"
| "Number (JBool b) = Fin (if b then 1 else 0)"
| "Number (JNum n) = n"
| "Number (JStr s) = StringToNumber s"

definition is_blank :: "jsval \<Rightarrow> bool" where
  \<comment> \<open>\<^verbatim>\<open>v === null || v === undefined || v === ""\<close>\<close>
  "is_blank v = (v = JNull \<or> v = JUndef \<or> v = JStr [])"

text \<open>
  A mixing number, as a fetched row carries it: \<^verbatim>\<open>null\<close>, a whole number, or text.
\<close>

datatype cell = CNull | CInt int | CStr string

fun cell_Number :: "cell \<Rightarrow> jnum" where
  \<comment> \<open>\<^verbatim>\<open>Number(c)\<close>\<close>
  "cell_Number CNull = Fin 0"
| "cell_Number (CInt n) = Fin (of_int n)"
| "cell_Number (CStr s) = StringToNumber s"

fun cell_String :: "cell \<Rightarrow> string" where
  \<comment> \<open>\<^verbatim>\<open>`${c}`\<close> and \<^verbatim>\<open>String(c)\<close>\<close>
  "cell_String CNull = ''null''"
| "cell_String (CInt n) = show_int n"
| "cell_String (CStr s) = s"

fun cell_truthy :: "cell \<Rightarrow> bool" where
  "cell_truthy CNull = False"
| "cell_truthy (CInt n) = (n \<noteq> 0)"
| "cell_truthy (CStr s) = (s \<noteq> [])"

fun opt_String :: "string option \<Rightarrow> string" where
  \<comment> \<open>\<^verbatim>\<open>`${v}`\<close> for a text column\<close>
  "opt_String None = ''null''"
| "opt_String (Some s) = s"

subsection \<open>Objects, arrays and the host\<close>

text \<open>
  An object used as a dictionary is an association list in insertion order with one pair
  per key. \<^verbatim>\<open>Object.keys\<close> lists first the keys that are array indices, in ascending
  order, and then the others in insertion order.
\<close>

fun obj_set :: "(string \<times> 'a) list \<Rightarrow> string \<Rightarrow> 'a \<Rightarrow> (string \<times> 'a) list" where
  "obj_set [] k v = [(k, v)]"
| "obj_set ((k', v') # m) k v = (if k' = k then (k', v) # m else (k', v') # obj_set m k v)"

definition is_array_index :: "string \<Rightarrow> bool" where
  "is_array_index s =
     (s \<noteq> [] \<and> list_all is_digit s \<and> show_nat (nat_of_digits s) = s \<and> int (nat_of_digits s) < 4294967295)"

definition Object_keys :: "(string \<times> 'a) list \<Rightarrow> string list" where
  "Object_keys m =
     sort_key nat_of_digits (filter is_array_index (map fst m))
       @ filter (\<lambda>k. \<not> is_array_index k) (map fst m)"

definition Set_of :: "'a list \<Rightarrow> 'a list" where
  \<comment> \<open>\<^verbatim>\<open>[...new Set(xs)]\<close>: the first occurrence of each element, in order\<close>
  "Set_of xs = rev (remdups (rev xs))"

text \<open>
  \<^verbatim>\<open>xs.sort(cmp)\<close> is stable. The comparator returns a number; a positive result puts
  the second argument first, anything else (also \<open>NaN\<close>) leaves the order. For a comparator
  that is a total preorder every stable sort gives the list below.
\<close>

fun insert_by :: "('a \<Rightarrow> 'a \<Rightarrow> jnum) \<Rightarrow> 'a \<Rightarrow> 'a list \<Rightarrow> 'a list" where
  "insert_by cmp x [] = [x]"
| "insert_by cmp x (y # ys) = (if jgt (cmp x y) 0 then y # insert_by cmp x ys else x # y # ys)"

definition js_sort :: "('a \<Rightarrow> 'a \<Rightarrow> jnum) \<Rightarrow> 'a list \<Rightarrow> 'a list" where
  "js_sort cmp xs = foldr (insert_by cmp) xs []"

text \<open>
  What the host supplies: the parsing of date strings that are not in the ISO date form,
  the offset of local time (in milliseconds, at a given instant), the collation of
  \<^verbatim>\<open>localeCompare\<close> with \<^verbatim>\<open>sensitivity: "base"\<close>, and the collation of
  \<^verbatim>\<open>localeCompare\<close> without options.
\<close>

record host =
  host_parse :: "string \<Rightarrow> int option"
  tz_offset :: "int \<Rightarrow> int"
  localeCompare :: "string \<Rightarrow> string \<Rightarrow> int"
  localeCompare_default :: "string \<Rightarrow> string \<Rightarrow> int"

subsection \<open>Fetched rows\<close>

datatype metric = Mic | Str | Uhml | Rd | Plus_b | Sf | Ui | Elong | Trash | Moist

definition METRICS :: "metric list" where
  "METRICS = [Mic, Str, Uhml, Rd, Plus_b, Sf, Ui, Elong, Trash, Moist]"

record mixing_row =
  mixing_no :: cell
  unit :: "string option"
  line :: "string option"
  cotton :: "string option"
  lot_no :: "string option"
  issue_bale :: jsval

record lot_result =
  lot :: "string option"
  variety :: "string option"
  quality :: "metric \<Rightarrow> jsval"
  min_mic :: jsval
  min_mic_bale_per_lot :: jsval
  no_of_bale :: jsval

record mixing_code =
  code_variety :: "string option"
  cotton_name :: "string option"
  weight :: jsval

record issue_row =
  issue_unit :: "string option"
  issue_line :: "string option"
  issue_mixing_no :: cell
  issue_cotton :: "string option"
  issue_date :: "string option"

subsection \<open>Dates\<close>

text \<open>
  A \<^verbatim>\<open>Date\<close> is its time value, the milliseconds since 1970-01-01 UTC, or invalid. The
  calendar fields are those of the proleptic Gregorian calendar; the local fields are the
  fields of the time value shifted by the host's offset.
\<close>

definition msPerDay :: int where
  "msPerDay = 86400000"

definition days_from_civil :: "int \<Rightarrow> int \<Rightarrow> int \<Rightarrow> int" where
  "days_from_civil y m d =
     (let y' = (if m \<le> 2 then y - 1 else y);
          era = y' div 400;
          yoe = y' - era * 400;
          mp = (m + 9) mod 12;
          doy = (153 * mp + 2) div 5 + d - 1;
          doe = yoe * 365 + yoe div 4 - yoe div 100 + doy
      in era * 146097 + doe - 719468)"

definition civil_from_days :: "int \<Rightarrow> int \<times> int \<times> int" where
  "civil_from_days z =
     (let z' = z + 719468;
          era = z' div 146097;
          doe = z' - era * 146097;
          yoe = (doe - doe div 1460 + doe div 36524 - doe div 146096) div 365;
          doy = doe - (365 * yoe + yoe div 4 - yoe div 100);
          mp = (5 * doy + 2) div 153;
          d = doy - (153 * mp + 2) div 5 + 1;
          m = (if mp < 10 then mp + 3 else mp - 9);
          y = yoe + era * 400
      in (if m \<le> 2 then y + 1 else y, m, d))"

definition is_leap :: "int \<Rightarrow> bool" where
  "is_leap y = (y mod 4 = 0 \<and> (y mod 100 \<noteq> 0 \<or> y mod 400 = 0))"

definition days_in_month :: "int \<Rightarrow> int \<Rightarrow> int" where
  "days_in_month y m =
     (if m = 2 then (if is_leap y then 29 else 28)
      else if m = 4 \<or> m = 6 \<or> m = 9 \<or> m = 11 then 30 else 31)"

text \<open>
  The date-only forms of the ISO format, which every host reads as UTC:
  \<^verbatim>\<open>YYYY\<close>, \<^verbatim>\<open>YYYY-MM\<close> and \<^verbatim>\<open>YYYY-MM-DD\<close> with fields in range.
\<close>

definition iso_fields :: "string \<Rightarrow> (string \<times> string \<times> string) option" where
  "iso_fields s =
     (case s of
        [a, b, c, d] \<Rightarrow> Some ([a, b, c, d], ''01'', ''01'')
      | [a, b, c, d, h, m1, m2] \<Rightarrow>
          if h = CHR ''-'' then Some ([a, b, c, d], [m1, m2], ''01'') else None
      | [a, b, c, d, h, m1, m2, h', d1, d2] \<Rightarrow>
          if h = CHR ''-'' \<and> h' = CHR ''-'' then Some ([a, b, c, d], [m1, m2], [d1, d2]) else None
      | _ \<Rightarrow> None)"

definition iso_date :: "string \<Rightarrow> int option" where
  "iso_date s =
     (case iso_fields s of
        None \<Rightarrow> None
      | Some (ys, ms, ds) \<Rightarrow>
          if list_all is_digit (ys @ ms @ ds) then
            (let y = int (nat_of_digits ys); m = int (nat_of_digits ms); d = int (nat_of_digits ds)
             in if 1 \<le> m \<and> m \<le> 12 \<and> 1 \<le> d \<and> d \<le> days_in_month y m
                then Some (days_from_civil y m d * msPerDay) else None)
          else None)"

definition date_parse :: "host \<Rightarrow> string \<Rightarrow> int option" where
  \<comment> \<open>the time value of \<^verbatim>\<open>new Date(s)\<close>; \<open>None\<close> is an invalid date\<close>
  "date_parse h s =
     (case iso_date s of
        Some t \<Rightarrow> Some t
      | None \<Rightarrow>
          (case host_parse h s of
             None \<Rightarrow> None
           | Some t \<Rightarrow> if \<bar>t\<bar> \<le> 8640000000000000 then Some t else None))"

definition getTime :: "host \<Rightarrow> string \<Rightarrow> jnum" where
  \<comment> \<open>\<^verbatim>\<open>new Date(s).getTime()\<close>\<close>
  "getTime h s = (case date_parse h s of None \<Rightarrow> NaN | Some t \<Rightarrow> Fin (of_int t))"

definition utc_fields :: "int \<Rightarrow> int \<times> int \<times> int" where
  "utc_fields t = civil_from_days (t div msPerDay)"

definition local_fields :: "host \<Rightarrow> int \<Rightarrow> int \<times> int \<times> int" where
  \<comment> \<open>\<^verbatim>\<open>getFullYear()\<close>, \<^verbatim>\<open>getMonth() + 1\<close> and \<^verbatim>\<open>getDate()\<close>\<close>
  "local_fields h t = civil_from_days ((t + tz_offset h t) div msPerDay)"

definition pad_left :: "nat \<Rightarrow> string \<Rightarrow> string" where
  "pad_left n s = replicate (n - length s) (CHR ''0'') @ s"

definition iso_year :: "int \<Rightarrow> string" where
  \<comment> \<open>the year of \<^verbatim>\<open>toISOString\<close>: four digits, or a sign and six digits\<close>
  "iso_year y =
     (if 0 \<le> y \<and> y \<le> 9999 then pad_left 4 (show_nat (nat y))
      else (if y < 0 then ''-'' else ''+'') @ pad_left 6 (show_nat (nat \<bar>y\<bar>)))"

definition iso_day :: "int \<Rightarrow> string" where
  \<comment> \<open>\<^verbatim>\<open>date.toISOString().split("T")[0]\<close>\<close>
  "iso_day t =
     (case utc_fields t of
        (y, m, d) \<Rightarrow> iso_year y @ ''-'' @ pad2 (show_int m) @ ''-'' @ pad2 (show_int d))"

subsection \<open>Period bucketing\<close>

definition format_daily :: "host \<Rightarrow> string option \<Rightarrow> string option" where
  "format_daily h issueDate =
     (case issueDate of
        None \<Rightarrow> None
      | Some s \<Rightarrow>
          if s = [] then None
          else (case date_parse h s of None \<Rightarrow> None | Some t \<Rightarrow> Some (iso_day t)))"

definition format_weekly :: "host \<Rightarrow> string option \<Rightarrow> string option" where
  "format_weekly h issueDate =
     (case issueDate of
        None \<Rightarrow> None
      | Some s \<Rightarrow>
          if s = [] then None
          else (case date_parse h s of
                  None \<Rightarrow> None
                | Some t \<Rightarrow>
                    (case local_fields h t of
                       (year, m, d) \<Rightarrow>
                         let month = pad2 (show_int m);
                             weekNum = (d + 6) div 7
                         in Some (show_int year @ ''-'' @ month @ ''-W'' @ show_int weekNum))))"

definition format_monthly :: "host \<Rightarrow> string option \<Rightarrow> string option" where
  "format_monthly h issueDate =
     (case issueDate of
        None \<Rightarrow> None
      | Some s \<Rightarrow>
          if s = [] then None
          else (case date_parse h s of
                  None \<Rightarrow> None
                | Some t \<Rightarrow>
                    (case local_fields h t of
                       (year, m, d) \<Rightarrow> Some (show_int year @ ''-'' @ pad2 (show_int m)))))"

definition PERIOD_FORMATTERS :: "string \<Rightarrow> (host \<Rightarrow> string option \<Rightarrow> string option) option" where
  "PERIOD_FORMATTERS reportType =
     (if reportType = ''daily'' then Some format_daily
      else if reportType = ''weekly'' then Some format_weekly
      else if reportType = ''monthly'' then Some format_monthly
      else None)"

record period_descriptor =
  label :: "string option"
  sortKey :: "string option"
  sortValue :: "jnum option"

text \<open>The patterns \<^verbatim>\<open>/^(\d{4})-(\d{2})-W(\d{1,2})$/\<close> and \<^verbatim>\<open>/^(\d{4})-(\d{2})$/\<close>.\<close>

definition match_week_label :: "string \<Rightarrow> (string \<times> string \<times> string) option" where
  "match_week_label s =
     (case s of
        a # b # c # d # h # m1 # m2 # h' # w # ws \<Rightarrow>
          if list_all is_digit [a, b, c, d, m1, m2] \<and> h = CHR ''-'' \<and> h' = CHR ''-'' \<and> w = CHR ''W''
             \<and> (length ws = 1 \<or> length ws = 2) \<and> list_all is_digit ws
          then Some ([a, b, c, d], [m1, m2], ws) else None
      | _ \<Rightarrow> None)"

definition match_month_label :: "string \<Rightarrow> (string \<times> string) option" where
  "match_month_label s =
     (case s of
        [a, b, c, d, h, m1, m2] \<Rightarrow>
          if list_all is_digit [a, b, c, d, m1, m2] \<and> h = CHR ''-''
          then Some ([a, b, c, d], [m1, m2]) else None
      | _ \<Rightarrow> None)"

definition buildPeriodDescriptor :: "host \<Rightarrow> string option \<Rightarrow> string \<Rightarrow> period_descriptor" where
  "buildPeriodDescriptor h issueDate reportType =
     (let formatter = (case PERIOD_FORMATTERS reportType of Some f \<Rightarrow> f | None \<Rightarrow> format_daily)
      in case formatter h issueDate of
           None \<Rightarrow> \<lparr>label = None, sortKey = None, sortValue = None\<rparr>
         | Some l \<Rightarrow>
             if reportType = ''weekly'' then
               (case match_week_label l of
                  None \<Rightarrow> \<lparr>label = Some l, sortKey = Some l, sortValue = None\<rparr>
                | Some (year, month, weekRaw) \<Rightarrow>
                    let normalizedWeek = pad2 weekRaw
                    in \<lparr>label = Some l,
                        sortKey = Some (year @ ''-'' @ month @ ''-'' @ normalizedWeek),
                        sortValue = Some (StringToNumber (year @ month @ normalizedWeek))\<rparr>)
             else if reportType = ''monthly'' then
               (case match_month_label l of
                  None \<Rightarrow> \<lparr>label = Some l, sortKey = Some l, sortValue = None\<rparr>
                | Some (year, month) \<Rightarrow>
                    \<lparr>label = Some l,
                     sortKey = Some (year @ ''-'' @ month),
                     sortValue = Some (StringToNumber (year @ month))\<rparr>)
             else
               (let timestamp = getTime h l
                in \<lparr>label = Some l, sortKey = Some l,
                    sortValue = (if isNaN timestamp then None else Some timestamp)\<rparr>))"

subsection \<open>The weighted aggregator\<close>

text \<open>
  The loop over the rows of one group, which the daily and the weekly/monthly branch of
  the route both contain, statement for statement. It keeps the ten weighted sums, the
  bales per lot, the numerator of the minimum-micronaire percentage and the lots' own
  \<^verbatim>\<open>min_mic\<close> values.
\<close>

record tally =
  weighted_sum :: "metric \<Rightarrow> jnum"
  lotBalesMap :: "(string \<times> jnum) list"
  weightedMinMicNumerator :: jnum
  minMicValues :: "rat list"

definition tally0 :: tally where
  "tally0 = \<lparr>weighted_sum = (\<lambda>k. Fin 0), lotBalesMap = [], weightedMinMicNumerator = Fin 0,
            minMicValues = []\<rparr>"

definition bales_of_row :: "mixing_row \<Rightarrow> jnum" where
  \<comment> \<open>\<^verbatim>\<open>Number(mixRow.issue_bale || 0)\<close>\<close>
  "bales_of_row r = Number (if truthy (issue_bale r) then issue_bale r else JNum (Fin 0))"

definition find_lot :: "lot_result list \<Rightarrow> mixing_row \<Rightarrow> lot_result option" where
  \<comment> \<open>\<^verbatim>\<open>lotResults.find((l) => l.lot_no === mixRow.lot_no)\<close>\<close>
  "find_lot lotResults mixRow = find (\<lambda>l. lot l = lot_no mixRow) lotResults"

definition lot_bales :: "(string \<times> jnum) list \<Rightarrow> string \<Rightarrow> rat" where
  \<comment> \<open>\<^verbatim>\<open>lotBalesMap[lotKey] || 0\<close>\<close>
  "lot_bales m k = (case map_of m k of None \<Rightarrow> 0 | Some v \<Rightarrow> or_zero v)"

definition add_row :: "lot_result list \<Rightarrow> tally \<Rightarrow> mixing_row \<Rightarrow> tally" where
  "add_row lotResults w mixRow =
     (case find_lot lotResults mixRow of
        None \<Rightarrow> w
      | Some l \<Rightarrow>
          let bales = bales_of_row mixRow;
              lbm = (case lot_no mixRow of
                       None \<Rightarrow> lotBalesMap w
                     | Some lotKey \<Rightarrow>
                         if lotKey = [] then lotBalesMap w
                         else obj_set (lotBalesMap w) lotKey (Fin (lot_bales (lotBalesMap w) lotKey) + bales));
              lotMinMicBales = Number (min_mic_bale_per_lot l);
              lotTotalBales = Number (no_of_bale l);
              numerator =
                (if \<not> is_blank (min_mic_bale_per_lot l) \<and> \<not> isNaN lotMinMicBales \<and> jgt lotTotalBales (Fin 0)
                 then weightedMinMicNumerator w
                        + jmul bales (jdiv (jmul lotMinMicBales (Fin 100)) lotTotalBales)
                 else weightedMinMicNumerator w);
              mins =
                (if \<not> is_blank (min_mic l)
                 then (case Number (min_mic l) of NaN \<Rightarrow> minMicValues w | Fin num \<Rightarrow> minMicValues w @ [num])
                 else minMicValues w)
          in \<lparr>weighted_sum = (\<lambda>k. weighted_sum w k + jmul (Fin (or_zero (Number (quality l k)))) bales),
              lotBalesMap = lbm,
              weightedMinMicNumerator = numerator,
              minMicValues = mins\<rparr>)"

definition sum_rows :: "lot_result list \<Rightarrow> mixing_row list \<Rightarrow> tally" where
  "sum_rows lotResults rows = foldl (add_row lotResults) tally0 rows"

definition totalBales_of :: "mixing_row list \<Rightarrow> jnum" where
  \<comment> \<open>\<^verbatim>\<open>rows.reduce((sum, r) => sum + Number(r.issue_bale || 0), 0)\<close>\<close>
  "totalBales_of rows = foldl (\<lambda>sum r. sum + bales_of_row r) (Fin 0) rows"

definition noOfLots_of :: "mixing_row list \<Rightarrow> nat" where
  \<comment> \<open>\<^verbatim>\<open>[...new Set(rows.map(r => r.lot_no))].length\<close>\<close>
  "noOfLots_of rows = length (Set_of (map lot_no rows))"

text \<open>
  The part of the \<^verbatim>\<open>weighted\<close> object that the loop and the statements after it fill:
  with positive total bales each sum is divided and rounded, otherwise the sums stay as
  they are and the percentage is zero.
\<close>

record averages =
  weighted_metric :: "metric \<Rightarrow> jnum"
  entry_min_mic :: "string option"
  min_mic_percent :: jnum

definition finish_tally :: "jnum \<Rightarrow> tally \<Rightarrow> averages" where
  "finish_tally totalBales w =
     \<lparr>weighted_metric =
        (if jgt totalBales (Fin 0) then (\<lambda>key. round2 (jdiv (weighted_sum w key) totalBales))
         else weighted_sum w),
      entry_min_mic =
        (if minMicValues w \<noteq> [] then Some (toFixed2 (Min (set (minMicValues w)))) else None),
      min_mic_percent =
        (if jgt totalBales (Fin 0) then round2 (jdiv (weightedMinMicNumerator w) totalBales)
         else Fin 0)\<rparr>"




text \<open>
  The end-to-end example of the specification: mixing 10 of blend \<^verbatim>\<open>A\<close>, two rows with
  100 and 50 bales, from lots with micronaire 4.0 and 5.0.
\<close>

definition example_lots :: "lot_result list" where
  "example_lots =
     [\<lparr>lot = Some ''L1'', variety = Some ''MCU5'', quality = (\<lambda>k. if k = Mic then JNum (Fin 4) else JNull),
       min_mic = JNum (Fin (7 / 2)), min_mic_bale_per_lot = JNum (Fin 2), no_of_bale = JNum (Fin 10)\<rparr>,
      \<lparr>lot = Some ''L2'', variety = Some ''DCH32'', quality = (\<lambda>k. if k = Mic then JNum (Fin 5) else JNull),
       min_mic = JNull, min_mic_bale_per_lot = JNull, no_of_bale = JNum (Fin 10)\<rparr>]"





subsection \<open>The daily report: grouping and summary entries\<close>

fun group_push :: "(string \<times> 'a list) list \<Rightarrow> string \<Rightarrow> 'a \<Rightarrow> (string \<times> 'a list) list" where
  \<comment> \<open>\<^verbatim>\<open>if (!groups[k]) groups[k] = []; groups[k].push(r)\<close>\<close>
  "group_push [] k r = [(k, [r])]"
| "group_push ((k', rs) # g) k r =
     (if k' = k then (k', rs @ [r]) # g else (k', rs) # group_push g k r)"

definition daily_group_key :: "mixing_row \<Rightarrow> string" where
  \<comment> \<open>\<^verbatim>\<open>`${row.mixing_no}|${row.cotton}`\<close>\<close>
  "daily_group_key row = cell_String (mixing_no row) @ ''|'' @ opt_String (cotton row)"

definition daily_groups :: "mixing_row list \<Rightarrow> (string \<times> mixing_row list) list" where
  "daily_groups mixingData =
     foldl (\<lambda>groups row. group_push groups (daily_group_key row) row) [] mixingData"

text \<open>
  The summary entry, the object \<^verbatim>\<open>weighted\<close> of the route. The fields \<^verbatim>\<open>mic\<close> to
  \<^verbatim>\<open>moist\<close>, \<^verbatim>\<open>min_mic\<close> and \<^verbatim>\<open>min_mic_percent\<close> are the record of averages; the fields
  whose name starts with an underscore in the source are the last four. The field
  \<^verbatim>\<open>issue_date_sort_key\<close> exists in the weekly and monthly reports only.
\<close>

record summary_entry =
  entry_mixing_no :: cell
  entry_unit :: "string option"
  entry_line :: "string option"
  entry_cotton :: "string option"
  total_bales :: jnum
  no_of_lots :: nat
  averaged :: averages
  entry_issue_date :: "string option"
  entry_sort_key :: "string option"
  mixing :: string
  blend_percent :: string
  bale_change_over_percent :: "rat option"
  lot_change_over_percent :: "rat option"
  previous_mixing_no :: cell
  mixing_start :: "rat option"
  mixing_end :: "rat option"
  entry_lotBalesMap :: "(string \<times> jnum) list"
  entry_groupKey :: string
  entry_versionNumber :: "nat option"
  entry_mixingNumbers :: "rat list"

definition numeric_cells :: "cell list \<Rightarrow> rat list" where
  \<comment> \<open>\<^verbatim>\<open>.map(n => Number(n)).filter(n => !Number.isNaN(n))\<close>\<close>
  "numeric_cells cs = concat (map (\<lambda>c. case cell_Number c of NaN \<Rightarrow> [] | Fin n \<Rightarrow> [n]) cs)"

definition mixingNumbers_of :: "cell list \<Rightarrow> rat list" where
  \<comment> \<open>the distinct mixing numbers, as numbers, in ascending order\<close>
  "mixingNumbers_of cs = sort (numeric_cells (Set_of cs))"

definition mixingRange_of :: "cell \<Rightarrow> rat option \<Rightarrow> rat option \<Rightarrow> cell" where
  "mixingRange_of first minMixing maxMixing =
     (case minMixing of
        None \<Rightarrow> first
      | Some lo \<Rightarrow>
          (case maxMixing of
             None \<Rightarrow> first
           | Some hi \<Rightarrow>
               if lo = hi then CStr (show_num lo)
               else CStr (show_num lo @ ''-'' @ show_num hi)))"

subsection \<open>Issue dates\<close>

definition or_default :: "string option \<Rightarrow> string \<Rightarrow> string" where
  \<comment> \<open>\<^verbatim>\<open>v ?? d\<close>\<close>
  "or_default v d = (case v of None \<Rightarrow> d | Some s \<Rightarrow> s)"

definition cell_or_default :: "cell \<Rightarrow> string \<Rightarrow> string" where
  "cell_or_default c d = (case c of CNull \<Rightarrow> d | _ \<Rightarrow> cell_String c)"

definition lookup_key :: "string option \<Rightarrow> string option \<Rightarrow> cell \<Rightarrow> string option \<Rightarrow> string" where
  "lookup_key u l m c =
     or_default u ''__NO_UNIT__'' @ ''|'' @ or_default l ''__NO_LINE__'' @ ''|''
       @ cell_or_default m ''__NO_MIXING__'' @ ''|'' @ or_default c ''__NO_COTTON__''"

definition date_truthy :: "string option \<Rightarrow> bool" where
  "date_truthy d = (case d of None \<Rightarrow> False | Some s \<Rightarrow> s \<noteq> [])"

definition build_issueDateLookup :: "issue_row list \<Rightarrow> (string \<times> string option) list" where
  \<comment> \<open>the first truthy issue date of each key wins\<close>
  "build_issueDateLookup issueData =
     foldl (\<lambda>lookup issueRow.
              let lookupKey = lookup_key (issue_unit issueRow) (issue_line issueRow)
                                (issue_mixing_no issueRow) (issue_cotton issueRow)
              in (case map_of lookup lookupKey of
                    None \<Rightarrow> obj_set lookup lookupKey (issue_date issueRow)
                  | Some d \<Rightarrow>
                      if date_truthy d then lookup else obj_set lookup lookupKey (issue_date issueRow)))
       [] issueData"

definition row_issue_date :: "(string \<times> string option) list \<Rightarrow> mixing_row \<Rightarrow> string option" where
  \<comment> \<open>\<^verbatim>\<open>issueDateLookup[lookupKey] || null\<close>\<close>
  "row_issue_date issueDateLookup row =
     (case map_of issueDateLookup (lookup_key (unit row) (line row) (mixing_no row) (cotton row)) of
        None \<Rightarrow> None
      | Some d \<Rightarrow> if date_truthy d then d else None)"

definition time_or_zero :: "host \<Rightarrow> string \<Rightarrow> rat" where
  \<comment> \<open>\<^verbatim>\<open>new Date(dateStr).getTime() || 0\<close>\<close>
  "time_or_zero h dateStr = or_zero (getTime h dateStr)"

definition earliest_issue_date :: "host \<Rightarrow> (string \<times> string option) list \<Rightarrow> mixing_row list \<Rightarrow> string option" where
  "earliest_issue_date h issueDateLookup rows =
     (let issueDates = concat (map (\<lambda>row. case row_issue_date issueDateLookup row of
                                              None \<Rightarrow> [] | Some d \<Rightarrow> [d]) rows)
      in case sort_key (time_or_zero h) issueDates of [] \<Rightarrow> None | d # _ \<Rightarrow> Some d)"

subsection \<open>The blend resolver of the daily report\<close>

definition str_truthy :: "string option \<Rightarrow> bool" where
  "str_truthy v = (case v of None \<Rightarrow> False | Some s \<Rightarrow> s \<noteq> [])"

definition uniqueVarieties_of :: "lot_result list \<Rightarrow> mixing_row list \<Rightarrow> string list" where
  "uniqueVarieties_of lotResults rows =
     (let lotsForMixing = map lot_no rows;
          varietiesForMixing =
            concat (map (\<lambda>l. case variety l of None \<Rightarrow> [] | Some v \<Rightarrow> if v = [] then [] else [v])
                      (filter (\<lambda>l. lot l \<in> set lotsForMixing) lotResults))
      in Set_of varietiesForMixing)"

definition fetch_mixing_code :: "mixing_code list \<Rightarrow> string list \<Rightarrow> mixing_code list" where
  \<comment> \<open>the query \<^verbatim>\<open>.from("mixing_code").in("variety", uniqueVarieties)\<close> on the table\<close>
  "fetch_mixing_code table uniqueVarieties =
     filter (\<lambda>mc. case code_variety mc of None \<Rightarrow> False | Some v \<Rightarrow> v \<in> set uniqueVarieties) table"

definition build_varietyMap :: "mixing_code list \<Rightarrow> (string \<times> string \<times> rat) list" where
  \<comment> \<open>variety to cotton name and \<^verbatim>\<open>Number(mc.weight) || 0\<close>\<close>
  "build_varietyMap mixingCodeData =
     foldl (\<lambda>varietyMap mc.
              (case code_variety mc of
                 None \<Rightarrow> varietyMap
               | Some v \<Rightarrow>
                   (case cotton_name mc of
                      None \<Rightarrow> varietyMap
                    | Some n \<Rightarrow>
                        if v = [] \<or> n = [] then varietyMap
                        else obj_set varietyMap v (n, or_zero (Number (weight mc))))))
       [] mixingCodeData"

record blend_state =
  cottonContributions :: "(string \<times> rat) list"
  totalWeightedSum :: rat

definition obj_num :: "(string \<times> rat) list \<Rightarrow> string \<Rightarrow> rat" where
  \<comment> \<open>the entry of a key, zero when there is none\<close>
  "obj_num m k = (case map_of m k of None \<Rightarrow> 0 | Some v \<Rightarrow> v)"

definition daily_blend_step ::
    "lot_result list \<Rightarrow> (string \<times> string \<times> rat) list \<Rightarrow> blend_state \<Rightarrow> mixing_row \<Rightarrow> blend_state" where
  "daily_blend_step lotResults varietyMap st mixRow =
     (case find_lot lotResults mixRow of
        None \<Rightarrow> st
      | Some l \<Rightarrow>
          (case variety l of
             None \<Rightarrow> st
           | Some v \<Rightarrow>
               if v = [] then st
               else (case map_of varietyMap v of
                       None \<Rightarrow> st
                     | Some (cottonName, w) \<Rightarrow>
                         let issueBale = or_zero (Number (issue_bale mixRow));
                             weightedValue = issueBale * w
                         in \<lparr>cottonContributions =
                               obj_set (cottonContributions st) cottonName
                                 (obj_num (cottonContributions st) cottonName + weightedValue),
                             totalWeightedSum = totalWeightedSum st + weightedValue\<rparr>)))"

definition daily_blend_state ::
    "lot_result list \<Rightarrow> (string \<times> string \<times> rat) list \<Rightarrow> mixing_row list \<Rightarrow> blend_state" where
  "daily_blend_state lotResults varietyMap rows =
     foldl (daily_blend_step lotResults varietyMap)
       \<lparr>cottonContributions = [], totalWeightedSum = 0\<rparr> rows"

definition by_locale :: "host \<Rightarrow> string \<Rightarrow> string \<Rightarrow> jnum" where
  \<comment> \<open>\<^verbatim>\<open>(a, b) => a.localeCompare(b, undefined, { sensitivity: "base" })\<close>\<close>
  "by_locale h a b = Fin (of_int (localeCompare h a b))"

definition cottonNames_of :: "host \<Rightarrow> mixing_code list \<Rightarrow> blend_state \<Rightarrow> string list" where
  "cottonNames_of h mixingCodeData st =
     (let cottonNames =
            js_sort (by_locale h)
              (filter (\<lambda>name. obj_num (cottonContributions st) name > 0)
                 (Object_keys (cottonContributions st)))
      in if cottonNames = [] then
           js_sort (by_locale h)
             (Set_of (concat (map (\<lambda>mc. case cotton_name mc of
                                           None \<Rightarrow> [] | Some n \<Rightarrow> if n = [] then [] else [n])
                                mixingCodeData)))
         else cottonNames)"

definition blendPercentages_of :: "blend_state \<Rightarrow> string list \<Rightarrow> int list" where
  "blendPercentages_of st cottonNames =
     map (\<lambda>cottonName.
            if totalWeightedSum st > 0 \<and> obj_num (cottonContributions st) cottonName \<noteq> 0
            then Math_round (obj_num (cottonContributions st) cottonName / totalWeightedSum st * 100)
            else 0)
       cottonNames"

fun join :: "string \<Rightarrow> string list \<Rightarrow> string" where
  "join sep [] = []"
| "join sep [x] = x"
| "join sep (x # y # ys) = x @ sep @ join sep (y # ys)"

definition daily_blend ::
    "host \<Rightarrow> lot_result list \<Rightarrow> mixing_code list \<Rightarrow> mixing_row list \<Rightarrow> string \<times> string" where
  \<comment> \<open>the fields \<^verbatim>\<open>mixing\<close> and \<^verbatim>\<open>blend_percent\<close>\<close>
  "daily_blend h lotResults table rows =
     (let uniqueVarieties = uniqueVarieties_of lotResults rows in
      if uniqueVarieties = [] then ([], [])
      else
        let mixingCodeData = fetch_mixing_code table uniqueVarieties in
        if mixingCodeData = [] then ([], [])
        else
          let st = daily_blend_state lotResults (build_varietyMap mixingCodeData) rows;
              cottonNames = cottonNames_of h mixingCodeData st;
              blendPercentages = blendPercentages_of st cottonNames
          in (join ''+'' cottonNames, join ''+'' (map show_int blendPercentages)))"

definition daily_entry ::
    "host \<Rightarrow> (string \<times> string option) list \<Rightarrow> lot_result list \<Rightarrow> mixing_code list
       \<Rightarrow> mixing_row list \<Rightarrow> summary_entry list" where
  \<comment> \<open>one entry per group; no entry for a group without rows\<close>
  "daily_entry h issueDateLookup lotResults table rows =
     (case rows of
        [] \<Rightarrow> []
      | row0 # _ \<Rightarrow>
          let totalBales = totalBales_of rows;
              noOfLots = noOfLots_of rows;
              mixingNumbers = mixingNumbers_of (map mixing_no rows);
              minMixing = (if mixingNumbers \<noteq> [] then Some (Min (set mixingNumbers)) else None);
              maxMixing = (if mixingNumbers \<noteq> [] then Some (Max (set mixingNumbers)) else None);
              mixingRange = mixingRange_of (mixing_no row0) minMixing maxMixing;
              w = sum_rows lotResults rows;
              blend = daily_blend h lotResults table rows;
              version = parseCottonVersion (cotton row0)
          in [\<lparr>entry_mixing_no = mixingRange,
               entry_unit = unit row0,
               entry_line = line row0,
               entry_cotton = cotton row0,
               total_bales = totalBales,
               no_of_lots = noOfLots,
               averaged = finish_tally totalBales w,
               entry_issue_date = earliest_issue_date h issueDateLookup rows,
               entry_sort_key = None,
               mixing = fst blend,
               blend_percent = snd blend,
               bale_change_over_percent = None,
               lot_change_over_percent = None,
               previous_mixing_no = CNull,
               mixing_start = minMixing,
               mixing_end = maxMixing,
               entry_lotBalesMap = lotBalesMap w,
               entry_groupKey = groupKey version,
               entry_versionNumber = versionNumber version,
               entry_mixingNumbers = mixingNumbers\<rparr>])"

definition daily_entries ::
    "host \<Rightarrow> issue_row list \<Rightarrow> mixing_row list \<Rightarrow> lot_result list \<Rightarrow> mixing_code list
       \<Rightarrow> summary_entry list" where
  "daily_entries h issueData mixingData lotResults table =
     concat (map (\<lambda>(k, rows). daily_entry h (build_issueDateLookup issueData) lotResults table rows)
               (daily_groups mixingData))"


text \<open>
  Two blends for the examples: four lots of four varieties, each variety with its own
  cotton name and weight 1.
\<close>

definition plain_host :: host where
  \<comment> \<open>UTC, no date parsing beyond the ISO forms, and a collation that compares by length\<close>
  "plain_host = \<lparr>host_parse = (\<lambda>s. None), tz_offset = (\<lambda>t. 0),
                 localeCompare = (\<lambda>a b. int (length a) - int (length b)),
                 localeCompare_default = (\<lambda>a b. int (length a) - int (length b))\<rparr>"

definition blend_lot :: "string \<Rightarrow> string \<Rightarrow> lot_result" where
  "blend_lot l v = \<lparr>lot = Some l, variety = Some v, quality = (\<lambda>k. JNull), min_mic = JNull,
                    min_mic_bale_per_lot = JNull, no_of_bale = JNull\<rparr>"

definition blend_lots :: "lot_result list" where
  "blend_lots = [blend_lot ''L1'' ''V1'', blend_lot ''L2'' ''V2'', blend_lot ''L3'' ''V3'',
                 blend_lot ''L4'' ''V4'']"

definition blend_codes :: "mixing_code list" where
  "blend_codes =
     [\<lparr>code_variety = Some ''V1'', cotton_name = Some ''A'', weight = JNum (Fin 1)\<rparr>,
      \<lparr>code_variety = Some ''V2'', cotton_name = Some ''BB'', weight = JNum (Fin 1)\<rparr>,
      \<lparr>code_variety = Some ''V3'', cotton_name = Some ''CCC'', weight = JNum (Fin 1)\<rparr>,
      \<lparr>code_variety = Some ''V4'', cotton_name = Some ''DDDD'', weight = JNum (Fin 1)\<rparr>]"




subsection \<open>Continuity of the daily report\<close>

text \<open>
  The entries are partitioned by unit, line and blend group key. Each group is sorted and
  then walked once; the walk carries the version and the timestamp of the entry before
  (\<^verbatim>\<open>stats\<close>) and writes the three continuity fields of each entry. The entries are
  objects shared with \<^verbatim>\<open>summaryEntries\<close>: a record keeps the position of its entry, and
  the walk returns the rewritten entries with their positions.
\<close>

record continuity_record =
  rec_index :: nat
  rec_entry :: summary_entry
  maxMixNo :: "rat option"
  issueTimestamp :: "jnum option"

definition signature_of :: "summary_entry \<Rightarrow> string" where
  "signature_of e =
     or_default (entry_unit e) ''__NO_UNIT__'' @ ''|'' @ or_default (entry_line e) ''__NO_LINE__''
       @ ''|'' @ entry_groupKey e"

definition timestamp_of :: "host \<Rightarrow> summary_entry \<Rightarrow> jnum option" where
  \<comment> \<open>\<^verbatim>\<open>entry.issue_date ? new Date(entry.issue_date).getTime() : null\<close>\<close>
  "timestamp_of h e =
     (case entry_issue_date e of
        None \<Rightarrow> None
      | Some d \<Rightarrow> if d = [] then None else Some (getTime h d))"

definition maxMixNo_of :: "summary_entry \<Rightarrow> rat option" where
  "maxMixNo_of e =
     (if entry_mixingNumbers e \<noteq> [] then Some (Max (set (entry_mixingNumbers e)))
      else (case mixing_end e of Some m \<Rightarrow> Some m | None \<Rightarrow> mixing_start e))"

definition make_record :: "host \<Rightarrow> nat \<Rightarrow> summary_entry \<Rightarrow> continuity_record" where
  "make_record h i e =
     \<lparr>rec_index = i, rec_entry = e, maxMixNo = maxMixNo_of e, issueTimestamp = timestamp_of h e\<rparr>"

definition continuityGroups :: "host \<Rightarrow> summary_entry list \<Rightarrow> (string \<times> continuity_record list) list" where
  "continuityGroups h summaryEntries =
     foldl (\<lambda>groups (i, e). group_push groups (signature_of e) (make_record h i e)) []
       (enumerate 0 summaryEntries)"

definition MAX_SAFE_INTEGER :: rat where
  "MAX_SAFE_INTEGER = 9007199254740991"

definition timestamps_differ :: "jnum option \<Rightarrow> jnum option \<Rightarrow> bool" where
  \<comment> \<open>\<^verbatim>\<open>a !== b\<close> on \<^verbatim>\<open>null\<close> and numbers: \<open>NaN\<close> differs from everything\<close>
  "timestamps_differ a b =
     (case a of
        None \<Rightarrow> b \<noteq> None
      | Some x \<Rightarrow>
          (case b of
             None \<Rightarrow> True
           | Some y \<Rightarrow>
               (case x of NaN \<Rightarrow> True | Fin p \<Rightarrow> (case y of NaN \<Rightarrow> True | Fin q \<Rightarrow> p \<noteq> q))))"

definition version_or_max :: "continuity_record \<Rightarrow> rat" where
  \<comment> \<open>\<^verbatim>\<open>entry._versionNumber ?? Number.MAX_SAFE_INTEGER\<close>\<close>
  "version_or_max r =
     (case entry_versionNumber (rec_entry r) of None \<Rightarrow> MAX_SAFE_INTEGER | Some v \<Rightarrow> of_nat v)"

definition span_or_max :: "continuity_record \<Rightarrow> rat" where
  \<comment> \<open>\<^verbatim>\<open>maxMixNo ?? Number.MAX_SAFE_INTEGER\<close>\<close>
  "span_or_max r = (case maxMixNo r of None \<Rightarrow> MAX_SAFE_INTEGER | Some m \<Rightarrow> m)"

definition compare_records :: "continuity_record \<Rightarrow> continuity_record \<Rightarrow> jnum" where
  "compare_records a b =
     (if timestamps_differ (issueTimestamp a) (issueTimestamp b) then
        (case issueTimestamp a of
           None \<Rightarrow> Fin 1
         | Some x \<Rightarrow> (case issueTimestamp b of None \<Rightarrow> Fin (- 1) | Some y \<Rightarrow> jsub x y))
      else if version_or_max a \<noteq> version_or_max b then Fin (version_or_max a - version_or_max b)
      else if span_or_max a \<noteq> span_or_max b then Fin (span_or_max a - span_or_max b)
      else Fin 0)"

definition lotSet_of :: "summary_entry \<Rightarrow> summary_entry \<Rightarrow> string list" where
  \<comment> \<open>\<^verbatim>\<open>new Set([...Object.keys(previousLotMap), ...Object.keys(currentLotMap)])\<close>\<close>
  "lotSet_of previous entry =
     Set_of (Object_keys (entry_lotBalesMap previous) @ Object_keys (entry_lotBalesMap entry))"

definition change_over :: "summary_entry \<Rightarrow> summary_entry \<Rightarrow> rat option \<times> rat option" where
  "change_over previous entry =
     (let previousLotMap = entry_lotBalesMap previous;
          currentLotMap = entry_lotBalesMap entry;
          lotSet = lotSet_of previous entry;
          absoluteDifferenceSum =
            foldl (\<lambda>s lotNo. s + \<bar>lot_bales currentLotMap lotNo - lot_bales previousLotMap lotNo\<bar>) 0 lotSet;
          newLotCount =
            length (filter (\<lambda>lotNo. lot_bales previousLotMap lotNo = 0 \<and> lot_bales currentLotMap lotNo > 0) lotSet);
          removedLotCount =
            length (filter (\<lambda>lotNo. lot_bales currentLotMap lotNo = 0 \<and> lot_bales previousLotMap lotNo > 0) lotSet);
          previousTotalBales = or_zero (total_bales previous);
          previousLotCount = (of_nat (no_of_lots previous) :: rat)
      in (if previousTotalBales > 0
          then Some (round_to 2 (absoluteDifferenceSum / previousTotalBales * 100)) else None,
          if previousLotCount > 0
          then Some (round_to 2 (of_nat (newLotCount + removedLotCount) / previousLotCount * 100)) else None))"

record stats =
  lastVersion :: "nat option"
  lastTimestamp :: "jnum option"

definition annotate_entry :: "stats \<Rightarrow> summary_entry option \<Rightarrow> summary_entry \<Rightarrow> summary_entry" where
  \<comment> \<open>the body of \<^verbatim>\<open>records.forEach\<close>; \<open>previous\<close> is \<open>None\<close> at index 0\<close>
  "annotate_entry st previous entry =
     (let hasSameGroup = (lastVersion st \<noteq> None \<and> lastTimestamp st \<noteq> None) in
      case previous of
        None \<Rightarrow>
          entry\<lparr>bale_change_over_percent := None, lot_change_over_percent := None,
                previous_mixing_no := CNull\<rparr>
      | Some p \<Rightarrow>
          if \<not> hasSameGroup then
            entry\<lparr>bale_change_over_percent := None, lot_change_over_percent := None,
                  previous_mixing_no := CNull\<rparr>
          else
            entry\<lparr>bale_change_over_percent := fst (change_over p entry),
                  lot_change_over_percent := snd (change_over p entry),
                  previous_mixing_no := entry_mixing_no p\<rparr>)"

fun annotate ::
    "host \<Rightarrow> stats \<Rightarrow> summary_entry option \<Rightarrow> continuity_record list \<Rightarrow> (nat \<times> summary_entry) list" where
  "annotate h st previous [] = []"
| "annotate h st previous (r # rs) =
     (let entry = annotate_entry st previous (rec_entry r)
      in (rec_index r, entry)
           # annotate h \<lparr>lastVersion = entry_versionNumber entry, lastTimestamp = timestamp_of h entry\<rparr>
               (Some entry) rs)"

definition stats0 :: stats where
  "stats0 = \<lparr>lastVersion = None, lastTimestamp = None\<rparr>"

definition sorted_records :: "continuity_record list \<Rightarrow> continuity_record list" where
  \<comment> \<open>\<^verbatim>\<open>records.sort((a, b) => ...)\<close>\<close>
  "sorted_records records = js_sort compare_records records"

definition track_continuity :: "host \<Rightarrow> summary_entry list \<Rightarrow> summary_entry list" where
  "track_continuity h summaryEntries =
     (let updates = concat (map (\<lambda>(signature, records). annotate h stats0 None (sorted_records records))
                              (continuityGroups h summaryEntries))
      in map (\<lambda>(i, e). case map_of updates i of Some e' \<Rightarrow> e' | None \<Rightarrow> e)
           (enumerate 0 summaryEntries))"

definition date_value :: "host \<Rightarrow> string option \<Rightarrow> jnum" where
  \<comment> \<open>\<^verbatim>\<open>new Date(d)\<close> as a number; \<^verbatim>\<open>new Date(null)\<close> is the epoch\<close>
  "date_value h d = (case d of None \<Rightarrow> Fin 0 | Some s \<Rightarrow> getTime h s)"

fun split_on :: "char \<Rightarrow> string \<Rightarrow> string \<Rightarrow> string list" where
  "split_on c acc [] = [rev acc]"
| "split_on c acc (x # xs) = (if x = c then rev acc # split_on c [] xs else split_on c (x # acc) xs)"

definition mixing_filter :: "string list \<Rightarrow> summary_entry list \<Rightarrow> summary_entry list" where
  "mixing_filter mixingFilters summary =
     (if mixingFilters = [] then summary
      else filter (\<lambda>row. mixing row \<noteq> []
                     \<and> (\<exists>name\<in>set (split_on (CHR ''+'') [] (mixing row)). name \<in> set mixingFilters))
             summary)"

definition daily_summary ::
    "host \<Rightarrow> string list \<Rightarrow> issue_row list \<Rightarrow> mixing_row list \<Rightarrow> lot_result list \<Rightarrow> mixing_code list
       \<Rightarrow> summary_entry list" where
  "daily_summary h mixingFilters issueData mixingData lotResults table =
     (let summaryEntries = track_continuity h (daily_entries h issueData mixingData lotResults table);
          summary = js_sort (\<lambda>a b. jsub (date_value h (entry_issue_date b)) (date_value h (entry_issue_date a)))
                      summaryEntries
      in mixing_filter mixingFilters summary)"






text \<open>Two days of one blend, without and with a version in the blend code.\<close>

definition day_row :: "int \<Rightarrow> string \<Rightarrow> string \<Rightarrow> rat \<Rightarrow> mixing_row" where
  "day_row m c l b = \<lparr>mixing_no = CInt m, unit = Some ''1'', line = Some ''2'', cotton = Some c,
                      lot_no = Some l, issue_bale = JNum (Fin b)\<rparr>"

definition day_issue :: "int \<Rightarrow> string \<Rightarrow> string \<Rightarrow> issue_row" where
  "day_issue m c d = \<lparr>issue_unit = Some ''1'', issue_line = Some ''2'', issue_mixing_no = CInt m,
                      issue_cotton = Some c, issue_date = Some d\<rparr>"

definition plain_issues :: "issue_row list" where
  "plain_issues = [day_issue 10 ''A'' ''2024-01-30'', day_issue 11 ''A'' ''2024-01-31'']"

definition plain_rows :: "mixing_row list" where
  "plain_rows = [day_row 10 ''A'' ''L1'' 100, day_row 10 ''A'' ''L2'' 50,
                 day_row 11 ''A'' ''L1'' 80, day_row 11 ''A'' ''L3'' 40]"

definition versioned_issues :: "issue_row list" where
  "versioned_issues =
     [day_issue 10 ''25_31_V1'' ''2024-01-29'', day_issue 11 ''25_31_V2'' ''2024-01-30'',
      day_issue 12 ''25_31_V3'' ''2024-01-31'']"

definition versioned_rows :: "mixing_row list" where
  "versioned_rows =
     [day_row 10 ''25_31_V1'' ''L1'' 100, day_row 10 ''25_31_V1'' ''L2'' 50,
      day_row 11 ''25_31_V2'' ''L1'' 80, day_row 11 ''25_31_V2'' ''L3'' 40,
      day_row 12 ''25_31_V3'' ''L3'' 60]"

definition stats_of :: "host \<Rightarrow> summary_entry \<Rightarrow> stats" where
  \<comment> \<open>what the walk remembers of an entry\<close>
  "stats_of h e = \<lparr>lastVersion = entry_versionNumber e, lastTimestamp = timestamp_of h e\<rparr>"

definition plain_records :: "continuity_record list" where
  "plain_records =
     concat (map snd (continuityGroups plain_host
       (daily_entries plain_host plain_issues plain_rows (example_lots @ blend_lots) blend_codes)))"

definition versioned_records :: "continuity_record list" where
  "versioned_records =
     concat (map snd (continuityGroups plain_host
       (daily_entries plain_host versioned_issues versioned_rows (example_lots @ blend_lots) blend_codes)))"

text \<open>
  The order of a continuity group, as the specification words it: by issue timestamp
  ascending, an entry without issue date last; then by version number ascending; then by
  the largest mixing number ascending. A missing version or mixing number counts as
  \<open>2^53 - 1\<close>.
\<close>

definition tie_order :: "continuity_record \<Rightarrow> continuity_record \<Rightarrow> bool" where
  "tie_order a b =
     (version_or_max a < version_or_max b
      \<or> (version_or_max a = version_or_max b \<and> span_or_max a \<le> span_or_max b))"

definition in_order :: "continuity_record \<Rightarrow> continuity_record \<Rightarrow> bool" where
  "in_order a b =
     (case issueTimestamp a of
        None \<Rightarrow> issueTimestamp b = None \<and> tie_order a b
      | Some x \<Rightarrow>
          (case issueTimestamp b of
             None \<Rightarrow> True
           | Some y \<Rightarrow> or_zero x < or_zero y \<or> (or_zero x = or_zero y \<and> tie_order a b)))"

text \<open>
  The delimiter of the composite keys, and what the daily report promises of the mixing
  range of an entry: the group has at most one mixing number that is a number, and the
  range is the rendering of that number, or the mixing number of a row as fetched when
  none is a number.
\<close>

definition bar :: char where
  "bar = CHR ''|''"

definition range_ok :: "cell set \<Rightarrow> summary_entry \<Rightarrow> bool" where
  "range_ok raws e \<longleftrightarrow>
     mixing_start e = mixing_end e \<and>
     (\<forall>n\<in>set (entry_mixingNumbers e). mixing_start e = Some n) \<and>
     (case mixing_start e of
        Some n \<Rightarrow> entry_mixing_no e = CStr (show_num n)
      | None \<Rightarrow> entry_mixing_no e \<in> raws)"

section \<open>Properties\<close>

subsection \<open>Blend-version parsing\<close>

lemma of_char_upper: "(of_char (upper_char c) :: nat) =
  (if 97 \<le> (of_char c :: nat) \<and> (of_char c :: nat) \<le> 122 then of_char c - 32 else of_char c)"
  by (auto simp: upper_char_def)

lemma upper_char_space [simp]: "is_space (upper_char c) = is_space c"
  by (auto simp: is_space_def of_char_upper)



lemma V_not_sep [simp]: "\<not> is_sep (CHR ''V'')" "\<not> is_sep (CHR ''v'')"
  by (simp_all add: is_sep_def is_space_def)

lemma V_not_digit [simp]: "\<not> is_digit (CHR ''V'')" "\<not> is_digit (CHR ''v'')"
  by (simp_all add: is_digit_def)

lemma digit_not_sep: "is_digit c \<Longrightarrow> \<not> is_sep c"
  by (auto simp: is_digit_def is_sep_def is_space_def)






















lemma trim_id:
  assumes "s = [] \<or> (\<not> is_space (hd s) \<and> \<not> is_space (last s))"
  shows "trim s = s"
proof (cases s)
  case Nil
  then show ?thesis by (simp add: trim_def)
next
  case (Cons c cs)
  with assms have h: "\<not> is_space c" and l: "\<not> is_space (last s)" by auto
  have d: "dropWhile is_space s = s" using h Cons by simp
  have "rev s \<noteq> []" using Cons by simp
  then obtain x xs where r: "rev s = x # xs" by (cases "rev s") auto
  have "hd (rev s) = last s" using Cons by (simp add: hd_rev)
  then have "x = last s" using r by simp
  then have "dropWhile is_space (x # xs) = x # xs" using l by simp
  then have "dropWhile is_space (rev s) = rev s" unfolding r .
  then show ?thesis using d by (simp add: trim_def)
qed















subsection \<open>The weighted aggregator\<close>



















subsection \<open>The blend resolver\<close>



lemma map_of_obj_set: "map_of (obj_set m k v) = (map_of m)(k \<mapsto> v)"
  by (induction m) (auto simp: fun_eq_iff)

lemma obj_num_absent: "k \<notin> fst ` set m \<Longrightarrow> obj_num m k = 0"
  by (simp add: obj_num_def map_of_eq_None_iff[THEN iffD2])





lemma insert_by_set: "set (insert_by cmp x xs) = insert x (set xs)"
  by (induction xs) auto

lemma js_sort_set: "set (js_sort cmp xs) = set xs"
  by (induction xs) (simp_all add: js_sort_def insert_by_set)



lemma js_sort_length: "length (js_sort cmp xs) = length xs"
proof -
  have "length (insert_by cmp x ys) = Suc (length ys)" for x ys
    by (induction ys) auto
  then show ?thesis by (induction xs) (simp_all add: js_sort_def)
qed
















subsection \<open>Continuity of the daily report\<close>

lemma annotate_entry_core [simp]:
  "entry_lotBalesMap (annotate_entry st prev e) = entry_lotBalesMap e"
  "total_bales (annotate_entry st prev e) = total_bales e"
  "no_of_lots (annotate_entry st prev e) = no_of_lots e"
  "entry_mixing_no (annotate_entry st prev e) = entry_mixing_no e"
  "entry_versionNumber (annotate_entry st prev e) = entry_versionNumber e"
  "entry_issue_date (annotate_entry st prev e) = entry_issue_date e"
  by (simp_all add: annotate_entry_def Let_def split: option.splits)

lemma timestamp_of_annotate [simp]:
  "timestamp_of h (annotate_entry st prev e) = timestamp_of h e"
  by (simp add: timestamp_of_def)

lemma change_over_annotate [simp]:
  "change_over (annotate_entry st prev p) c = change_over p c"
  by (simp add: change_over_def lotSet_of_def)

lemma annotate_entry_Some:
  "annotate_entry st (Some q) e =
     (if lastVersion st \<noteq> None \<and> lastTimestamp st \<noteq> None
      then e\<lparr>bale_change_over_percent := fst (change_over q e),
             lot_change_over_percent := snd (change_over q e),
             previous_mixing_no := entry_mixing_no q\<rparr>
      else e\<lparr>bale_change_over_percent := None, lot_change_over_percent := None,
             previous_mixing_no := CNull\<rparr>)"
  by (simp add: annotate_entry_def Let_def)

lemma annotate_entry_prev [simp]:
  "annotate_entry st (Some (annotate_entry st' prev p)) e = annotate_entry st (Some p) e"
  by (simp only: annotate_entry_Some change_over_annotate annotate_entry_core)

lemma annotate_length [simp]: "length (annotate h st prev rs) = length rs"
  by (induction rs arbitrary: st prev) (simp_all add: Let_def)

lemma annotate_head:
  "rs \<noteq> [] \<Longrightarrow> snd (annotate h st prev rs ! 0) = annotate_entry st prev (rec_entry (rs ! 0))"
  by (cases rs) (simp_all add: Let_def)

lemma annotate_index:
  "i < length rs \<Longrightarrow> fst (annotate h st prev rs ! i) = rec_index (rs ! i)"
proof (induction rs arbitrary: st prev i)
  case Nil
  then show ?case by simp
next
  case (Cons r rs)
  then show ?case by (cases i) (simp_all add: Let_def)
qed

lemma annotate_nth:
  "0 < i \<Longrightarrow> i < length rs \<Longrightarrow>
     snd (annotate h st prev rs ! i)
       = annotate_entry (stats_of h (rec_entry (rs ! (i - 1)))) (Some (rec_entry (rs ! (i - 1))))
           (rec_entry (rs ! i))"
proof (induction rs arbitrary: st prev i)
  case Nil
  then show ?case by simp
next
  case (Cons r rs)
  from Cons.prems obtain j where i: "i = Suc j" and j: "j < length rs" by (cases i) auto
  let ?e = "annotate_entry st prev (rec_entry r)"
  let ?st = "\<lparr>lastVersion = entry_versionNumber ?e, lastTimestamp = timestamp_of h ?e\<rparr>"
  have unf: "snd (annotate h st prev (r # rs) ! i) = snd (annotate h ?st (Some ?e) rs ! j)"
    by (simp add: i Let_def)
  show ?case
  proof (cases j)
    case 0
    have "rs \<noteq> []" using j by auto
    from annotate_head[OF this] have
      "snd (annotate h ?st (Some ?e) rs ! 0) = annotate_entry ?st (Some ?e) (rec_entry (rs ! 0))" .
    then show ?thesis using unf 0 i by (simp add: stats_of_def)
  next
    case (Suc k)
    then have "0 < j" by simp
    from Cons.IH[OF this j] show ?thesis using unf i Suc by simp
  qed
qed


lemma Set_of_set [simp]: "set (Set_of xs) = set xs"
  by (simp add: Set_of_def)

lemma Set_of_distinct [simp]: "distinct (Set_of xs)"
  by (simp add: Set_of_def)





lemma sorted_records_length [simp]: "length (sorted_records records) = length records"
  by (simp add: sorted_records_def js_sort_length)


lemma plain_sorted: "map rec_index (sorted_records plain_records) = [0, 1]"
  by code_simp

lemma versioned_sorted: "map rec_index (sorted_records versioned_records) = [0, 1, 2]"
  by code_simp



lemma compare_in_order:
  assumes "issueTimestamp a \<noteq> Some NaN" "issueTimestamp b \<noteq> Some NaN"
  shows "(\<not> jgt (compare_records a b) (Fin 0)) = in_order a b"
proof (cases "issueTimestamp a")
  case None
  then show ?thesis using assms
    by (cases "issueTimestamp b")
       (auto simp: compare_records_def in_order_def timestamps_differ_def tie_order_def)
next
  case (Some x)
  then obtain p where x: "x = Fin p" using assms by (cases x) auto
  show ?thesis
  proof (cases "issueTimestamp b")
    case None
    then show ?thesis using Some
      by (simp add: compare_records_def in_order_def timestamps_differ_def)
  next
    case (Some y)
    then obtain q where y: "y = Fin q" using assms by (cases y) auto
    show ?thesis using \<open>issueTimestamp a = Some x\<close> Some x y
      by (auto simp: compare_records_def in_order_def timestamps_differ_def tie_order_def or_zero_def)
  qed
qed

lemma tie_total: "tie_order a b \<or> tie_order b a"
  by (auto simp: tie_order_def)

lemma tie_trans: "tie_order a b \<Longrightarrow> tie_order b c \<Longrightarrow> tie_order a c"
  by (auto simp: tie_order_def)

lemma in_order_total: "in_order a b \<or> in_order b a"
  using tie_total[of a b]
  by (cases "issueTimestamp a"; cases "issueTimestamp b") (auto simp: in_order_def)

lemma in_order_trans: "in_order a b \<Longrightarrow> in_order b c \<Longrightarrow> in_order a c"
  using tie_trans[of a b c]
  by (cases "issueTimestamp a"; cases "issueTimestamp b"; cases "issueTimestamp c")
     (auto simp: in_order_def)

lemma insert_by_sorted:
  assumes le: "\<And>a b. a \<in> S \<Longrightarrow> b \<in> S \<Longrightarrow> (\<not> jgt (cmp a b) (Fin 0)) = le a b"
    and total: "\<And>a b. le a b \<or> le b a"
    and trans: "\<And>a b c. le a b \<Longrightarrow> le b c \<Longrightarrow> le a c"
    and x: "x \<in> S" and ys: "set ys \<subseteq> S" and sorted: "sorted_wrt le ys"
  shows "sorted_wrt le (insert_by cmp x ys)"
  using ys sorted
proof (induction ys)
  case Nil
  then show ?case by simp
next
  case (Cons y ys)
  then have yS: "y \<in> S" and ysS: "set ys \<subseteq> S" and yle: "\<forall>z\<in>set ys. le y z"
    and s: "sorted_wrt le ys" by simp_all
  show ?case
  proof (cases "jgt (cmp x y) (Fin 0)")
    case True
    then have "\<not> le x y" using le[OF x yS] by simp
    then have "le y x" using total[of x y] by simp
    then have "\<forall>z\<in>set (insert_by cmp x ys). le y z" using yle by (simp add: insert_by_set)
    then show ?thesis using True Cons.IH[OF ysS s] by (simp add: zero_jnum_def)
  next
    case False
    then have xy: "le x y" using le[OF x yS] by simp
    then have "\<forall>z\<in>set ys. le x z" using yle trans by blast
    then show ?thesis using False xy Cons.prems(2) by (simp add: zero_jnum_def)
  qed
qed

lemma js_sort_sorted:
  assumes le: "\<And>a b. a \<in> S \<Longrightarrow> b \<in> S \<Longrightarrow> (\<not> jgt (cmp a b) (Fin 0)) = le a b"
    and total: "\<And>a b. le a b \<or> le b a"
    and trans: "\<And>a b c. le a b \<Longrightarrow> le b c \<Longrightarrow> le a c"
    and xs: "set xs \<subseteq> S"
  shows "sorted_wrt le (js_sort cmp xs)"
  using xs
proof (induction xs)
  case Nil
  then show ?case by (simp add: js_sort_def)
next
  case (Cons x xs)
  then have x: "x \<in> S" and xsS: "set xs \<subseteq> S" by simp_all
  have "set (js_sort cmp xs) \<subseteq> S" using xsS by (simp add: js_sort_set)
  from insert_by_sorted[of S cmp le, OF le total trans x this Cons.IH[OF xsS]]
  show ?case by (simp add: js_sort_def)
qed

lemma sorted_records_in_order:
  assumes "\<forall>r\<in>set records. issueTimestamp r \<noteq> Some NaN"
  shows "sorted_wrt in_order (sorted_records records)"
  unfolding sorted_records_def
proof (rule js_sort_sorted[where S = "{r. issueTimestamp r \<noteq> Some NaN}"])
  show "set records \<subseteq> {r. issueTimestamp r \<noteq> Some NaN}" using assms by blast
  show "in_order a b \<or> in_order b a" for a b by (rule in_order_total)
  show "in_order a b \<Longrightarrow> in_order b c \<Longrightarrow> in_order a c" for a b c by (rule in_order_trans)
  show "(\<not> jgt (compare_records a b) (Fin 0)) = in_order a b"
    if "a \<in> {r. issueTimestamp r \<noteq> Some NaN}" "b \<in> {r. issueTimestamp r \<noteq> Some NaN}" for a b
    using that by (intro compare_in_order) simp_all
qed

text \<open>
  Claim C7, as the code has it. The sorted records of a signature group are the records of
  the group, and when no issue date of the group is unparseable they are in order: by
  issue timestamp ascending with the entries without issue date last, then by version
  number ascending, then by largest mixing number ascending, a missing one counting as
  \<open>2^53 - 1\<close>. Every entry after the first gets as \<^verbatim>\<open>previous_mixing_no\<close> the mixing
  range of the entry just before it when that entry has a version number and an issue
  date, and \<^verbatim>\<open>null\<close> otherwise.
\<close>

theorem previous_mixing_ref:
  "\<forall>h (records :: continuity_record list).
     set (sorted_records records) = set records \<and>
     length (sorted_records records) = length records \<and>
     ((\<forall>r\<in>set records. issueTimestamp r \<noteq> Some NaN) \<longrightarrow>
        sorted_wrt in_order (sorted_records records)) \<and>
     (\<forall>i. 0 < i \<and> i < length records \<longrightarrow>
        previous_mixing_no (snd (annotate h stats0 None (sorted_records records) ! i)) =
          (if entry_versionNumber (rec_entry (sorted_records records ! (i - 1))) \<noteq> None
              \<and> timestamp_of h (rec_entry (sorted_records records ! (i - 1))) \<noteq> None
           then entry_mixing_no (rec_entry (sorted_records records ! (i - 1)))
           else CNull))"
proof (intro allI conjI impI)
  fix h and records :: "continuity_record list"
  show "set (sorted_records records) = set records"
    by (simp add: sorted_records_def js_sort_set)
  show "length (sorted_records records) = length records" by simp
  show "sorted_wrt in_order (sorted_records records)"
    if "\<forall>r\<in>set records. issueTimestamp r \<noteq> Some NaN"
    using that by (rule sorted_records_in_order)
  fix i assume "0 < i \<and> i < length records"
  then have i: "0 < i" "i < length (sorted_records records)" by simp_all
  show "previous_mixing_no (snd (annotate h stats0 None (sorted_records records) ! i)) =
          (if entry_versionNumber (rec_entry (sorted_records records ! (i - 1))) \<noteq> None
              \<and> timestamp_of h (rec_entry (sorted_records records ! (i - 1))) \<noteq> None
           then entry_mixing_no (rec_entry (sorted_records records ! (i - 1)))
           else CNull)"
    unfolding annotate_nth[OF i] annotate_entry_Some
    by (simp add: stats_of_def)
qed

theorem previous_mixing_ref_witness:
  "length versioned_records = 3 \<and>
   list_all (\<lambda>r. issueTimestamp r \<noteq> Some NaN) versioned_records \<and>
   sorted_wrt in_order (sorted_records versioned_records) \<and>
   entry_mixing_no (rec_entry (sorted_records versioned_records ! 0)) = CStr ''10'' \<and>
   entry_mixing_no (rec_entry (sorted_records versioned_records ! 1)) = CStr ''11'' \<and>
   previous_mixing_no (snd (annotate plain_host stats0 None (sorted_records versioned_records) ! 2))
     = CStr ''11''"
proof -
  have len: "length versioned_records = 3" by code_simp
  have valid: "list_all (\<lambda>r. issueTimestamp r \<noteq> Some NaN) versioned_records" by code_simp
  have i: "0 < (2::nat) \<and> 2 < length versioned_records" using len by simp
  have m: "entry_mixing_no (rec_entry (sorted_records versioned_records ! 0)) = CStr ''10''"
     "entry_mixing_no (rec_entry (sorted_records versioned_records ! 1)) = CStr ''11''"
     "entry_versionNumber (rec_entry (sorted_records versioned_records ! 1)) = Some 2"
     "timestamp_of plain_host (rec_entry (sorted_records versioned_records ! 1)) = Some (Fin 1706572800000)"
    by code_simp+
  note t = previous_mixing_ref[rule_format, of versioned_records plain_host]
  have s: "sorted_wrt in_order (sorted_records versioned_records)"
    using t valid by (simp add: list_all_iff)
  have "previous_mixing_no (snd (annotate plain_host stats0 None (sorted_records versioned_records) ! 2))
     = CStr ''11''"
    using t i m by simp
  with len valid s m show ?thesis by simp
qed

text \<open>
  Two days of the blend \<^verbatim>\<open>A\<close>, whose code has no version: the entry of the second day
  follows the entry of mixing 10 and has no \<^verbatim>\<open>previous_mixing_no\<close>.
\<close>

theorem previous_mixing_ref_gap:
  "length plain_records = 2 \<and>
   entry_mixing_no (rec_entry (sorted_records plain_records ! 0)) = CStr ''10'' \<and>
   previous_mixing_no (snd (annotate plain_host stats0 None (sorted_records plain_records) ! 1)) = CNull \<and>
   previous_mixing_no (snd (annotate plain_host stats0 None (sorted_records plain_records) ! 1))
     \<noteq> entry_mixing_no (rec_entry (sorted_records plain_records ! 0)) \<and>
   map previous_mixing_no
     (track_continuity plain_host
        (daily_entries plain_host plain_issues plain_rows (example_lots @ blend_lots) blend_codes))
     = [CNull, CNull]"
  by code_simp

subsection \<open>Mixing numbers and the groups of the daily report\<close>

lemma digit_val_char: "d < 10 \<Longrightarrow> digit_val (digit_char d) = d"
  by (simp add: digit_val_def digit_char_def)

lemma digit_char_digit: "d < 10 \<Longrightarrow> is_digit (digit_char d)"
  by (simp add: is_digit_def digit_char_def)

lemma nat_of_digits_snoc: "nat_of_digits (xs @ [c]) = 10 * nat_of_digits xs + digit_val c"
  by (simp add: nat_of_digits_def)

lemma show_nat_digits:
  "list_all is_digit (show_nat n) \<and> show_nat n \<noteq> [] \<and> nat_of_digits (show_nat n) = n"
proof (induction n rule: show_nat.induct)
  case (1 n)
  show ?case
  proof (cases "n < 10")
    case True
    then show ?thesis
      by (subst (1 2 3) show_nat.simps) (simp add: digit_char_digit nat_of_digits_def digit_val_char)
  next
    case False
    with 1 have IH: "list_all is_digit (show_nat (n div 10))" "nat_of_digits (show_nat (n div 10)) = n div 10"
      by simp_all
    have m: "n mod 10 < 10" by simp
    show ?thesis using False IH
      by (subst (1 2 3) show_nat.simps)
         (simp add: digit_char_digit[OF m] nat_of_digits_snoc digit_val_char[OF m])
  qed
qed

lemma digit_not_space: "is_digit c \<Longrightarrow> \<not> is_space c"
  by (auto simp: is_digit_def is_space_def)

lemma trim_no_space:
  assumes "\<forall>c\<in>set s. \<not> is_space c"
  shows "trim s = s"
proof (cases s)
  case Nil
  then show ?thesis by (simp add: trim_def)
next
  case (Cons c cs)
  then have "\<not> is_space (hd s)" "\<not> is_space (last s)" using assms by auto
  then show ?thesis by (intro trim_id) simp
qed

lemma str_unsigned_digits:
  assumes "ds \<noteq> []" "list_all is_digit ds"
  shows "str_unsigned ds = Fin (of_nat (nat_of_digits ds))"
proof -
  have t: "takeWhile is_digit ds = ds" using assms(2) by (simp add: list_all_iff takeWhile_eq_all_conv)
  have d: "dropWhile is_digit ds = []" using assms(2) by (simp add: list_all_iff)
  show ?thesis using assms(1) by (simp add: str_unsigned_def t d Let_def scale10_def)
qed

lemma str_radix_digits:
  assumes "ds \<noteq> []" "list_all is_digit ds"
  shows "str_radix ds = None"
proof (cases ds)
  case Nil
  then show ?thesis using assms by simp
next
  case (Cons z r)
  show ?thesis
  proof (cases r)
    case Nil
    then show ?thesis using Cons by (simp add: str_radix_def)
  next
    case (Cons x r')
    then have "is_digit x" using assms(2) \<open>ds = z # r\<close> by simp
    then have "x \<noteq> CHR ''x''" "x \<noteq> CHR ''X''" "x \<noteq> CHR ''o''" "x \<noteq> CHR ''O''" "x \<noteq> CHR ''b''" "x \<noteq> CHR ''B''"
      by (auto simp: is_digit_def)
    then show ?thesis using Cons \<open>ds = z # r\<close> by (simp add: str_radix_def Let_def)
  qed
qed

lemma StringToNumber_show_nat: "StringToNumber (show_nat n) = Fin (of_nat n)"
proof -
  let ?s = "show_nat n"
  note d = show_nat_digits[of n]
  have ns: "\<forall>c\<in>set ?s. \<not> is_space c" using d digit_not_space by (auto simp: list_all_iff)
  have t: "trim ?s = ?s" using ns by (rule trim_no_space)
  obtain c r where cr: "?s = c # r" using d by (cases ?s) auto
  then have "is_digit c" using d by simp
  then have c: "c \<noteq> CHR ''+''" "c \<noteq> CHR ''-''" by (auto simp: is_digit_def)
  have "str_radix ?s = None" using d by (intro str_radix_digits) simp_all
  moreover have "str_unsigned ?s = Fin (of_nat n)" using str_unsigned_digits[of ?s] d by simp
  ultimately show ?thesis
    unfolding StringToNumber_def t Let_def using cr c d by simp
qed

lemma StringToNumber_show_int: "StringToNumber (show_int n) = Fin (of_int n)"
proof (cases "n < 0")
  case False
  then show ?thesis by (simp add: show_int_def StringToNumber_show_nat)
next
  case True
  let ?m = "nat (- n)"
  let ?s = "show_nat ?m"
  note d = show_nat_digits[of ?m]
  have ns: "\<forall>c\<in>set (CHR ''-'' # ?s). \<not> is_space c"
    using d digit_not_space by (auto simp: list_all_iff is_space_def)
  have t: "trim (CHR ''-'' # ?s) = CHR ''-'' # ?s" using ns by (rule trim_no_space)
  have r: "str_radix (CHR ''-'' # ?s) = None"
    by (cases ?s) (simp_all add: str_radix_def Let_def)
  have u: "str_unsigned ?s = Fin (of_nat ?m)" using str_unsigned_digits[of ?s] d by simp
  have "StringToNumber (CHR ''-'' # ?s) = Fin (- of_nat ?m)"
    unfolding StringToNumber_def t Let_def r by (simp add: u)
  moreover have "(- of_nat ?m :: rat) = of_int n" using True by simp
  ultimately show ?thesis using True by (simp add: show_int_def)
qed

lemma show_int_chars: "c \<in> set (show_int n) \<Longrightarrow> is_digit c \<or> c = CHR ''-''"
  using show_nat_digits by (auto simp: show_int_def list_all_iff split: if_splits)

lemma show_int_no_bar: "CHR ''|'' \<notin> set (show_int n)"
  using show_int_chars[of "CHR ''|''" n] by (auto simp: is_digit_def)

lemma show_int_not_null: "show_int n \<noteq> ''null''"
proof
  assume "show_int n = ''null''"
  then have "CHR ''n'' \<in> set (show_int n)" by simp
  from show_int_chars[OF this] show False by (simp add: is_digit_def)
qed

lemma in_dropWhile: "c \<in> set xs \<Longrightarrow> \<not> P c \<Longrightarrow> c \<in> set (dropWhile P xs)"
  by (induction xs) auto

lemma in_trim: "c \<in> set s \<Longrightarrow> \<not> is_space c \<Longrightarrow> c \<in> set (trim s)"
  by (simp add: trim_def in_dropWhile)

lemma bar_props [simp]:
  "\<not> is_space bar" "\<not> is_digit bar" "bar \<noteq> CHR ''.''" "bar \<noteq> CHR ''e''" "bar \<noteq> CHR ''E''"
  "bar \<noteq> CHR ''+''" "bar \<noteq> CHR ''-''" "bar \<noteq> CHR ''0''"
  "bar \<noteq> CHR ''x''" "bar \<noteq> CHR ''X''" "bar \<noteq> CHR ''o''" "bar \<noteq> CHR ''O''" "bar \<noteq> CHR ''b''" "bar \<noteq> CHR ''B''"
  "radix_digit b bar = None"
  by (simp_all add: bar_def is_space_def is_digit_def radix_digit_def Let_def)

lemma str_exponent_bar: "bar \<in> set r \<Longrightarrow> str_exponent r = None"
proof (cases r)
  case Nil
  then show "bar \<in> set r \<Longrightarrow> str_exponent r = None" by simp
next
  case (Cons e r')
  assume b: "bar \<in> set r"
  show "str_exponent r = None"
  proof (cases "e = CHR ''e'' \<or> e = CHR ''E''")
    case False
    then show ?thesis using Cons by simp
  next
    case True
    then have "bar \<in> set r'" using b Cons by auto
    then show ?thesis using True Cons
      by (cases r') (auto simp: list_all_iff)
  qed
qed

lemma str_unsigned_bar:
  assumes "bar \<in> set u"
  shows "str_unsigned u = NaN"
proof -
  let ?r1 = "dropWhile is_digit u"
  have b1: "bar \<in> set ?r1" using assms by (simp add: in_dropWhile)
  then obtain c r where r1: "?r1 = c # r" by (cases ?r1) auto
  show ?thesis
  proof (cases "c = CHR ''.''")
    case True
    then have "bar \<in> set r" using b1 r1 by auto
    then have "bar \<in> set (dropWhile is_digit r)" by (simp add: in_dropWhile)
    then have e: "str_exponent (dropWhile is_digit r) = None" by (rule str_exponent_bar)
    show ?thesis using True by (simp add: str_unsigned_def Let_def r1 e)
  next
    case False
    from b1 r1 have "bar \<in> set (c # r)" by simp
    then have e: "str_exponent (c # r) = None" by (rule str_exponent_bar)
    show ?thesis using False by (simp add: str_unsigned_def Let_def r1 e del: str_exponent.simps)
  qed
qed

lemma str_radix_bar:
  assumes "bar \<in> set t"
  shows "str_radix t = None \<or> str_radix t = Some NaN"
proof (cases t)
  case Nil
  then show ?thesis by (simp add: str_radix_def)
next
  case (Cons z r)
  show ?thesis
  proof (cases r)
    case Nil
    then show ?thesis using Cons by (simp add: str_radix_def)
  next
    case (Cons x ds)
    show ?thesis
    proof (cases "z = CHR ''0'' \<and> x \<in> {CHR ''x'', CHR ''X'', CHR ''o'', CHR ''O'', CHR ''b'', CHR ''B''}")
      case True
      then have "bar \<in> set ds" using assms \<open>t = z # r\<close> Cons by auto
      then have "\<not> list_all (\<lambda>c. radix_digit b c \<noteq> None) ds" for b
        by (auto simp: list_all_iff intro: bexI[of _ bar])
      then show ?thesis using \<open>t = z # r\<close> Cons by (auto simp: str_radix_def Let_def)
    next
      case False
      then show ?thesis using \<open>t = z # r\<close> Cons by (auto simp: str_radix_def Let_def)
    qed
  qed
qed

lemma StringToNumber_bar:
  assumes "CHR ''|'' \<in> set s"
  shows "StringToNumber s = NaN"
proof -
  have b: "bar \<in> set (trim s)" using assms by (simp add: bar_def[symmetric] in_trim)
  then obtain c r where cr: "trim s = c # r" by (cases "trim s") auto
  from str_radix_bar[OF b] show ?thesis
  proof
    assume "str_radix (trim s) = Some NaN"
    then show ?thesis using cr by (simp add: StringToNumber_def Let_def)
  next
    assume n: "str_radix (trim s) = None"
    show ?thesis
    proof (cases "c = CHR ''+'' \<or> c = CHR ''-''")
      case True
      then have "bar \<in> set r" using b cr by auto
      then have "str_unsigned r = NaN" by (rule str_unsigned_bar)
      then show ?thesis using True cr n by (auto simp: StringToNumber_def Let_def)
    next
      case False
      have "str_unsigned (c # r) = NaN" using b cr str_unsigned_bar by simp
      then show ?thesis using False cr n by (simp add: StringToNumber_def Let_def)
    qed
  qed
qed

lemma cell_numeric_no_bar: "cell_Number c \<noteq> NaN \<Longrightarrow> CHR ''|'' \<notin> set (cell_String c)"
  using StringToNumber_bar by (cases c) (auto simp: show_int_no_bar)

lemma cell_same_text:
  assumes "cell_String a = cell_String b" "cell_Number a \<noteq> NaN" "cell_Number b \<noteq> NaN"
  shows "cell_Number a = cell_Number b"
proof -
  have null: "StringToNumber ''null'' = NaN" by code_simp
  show ?thesis
  proof (cases a)
    case CNull
    then show ?thesis using assms null show_int_not_null[symmetric] by (cases b) auto
  next
    case (CInt n)
    then show ?thesis using assms show_int_not_null StringToNumber_show_int
      by (cases b) (auto simp: StringToNumber_show_int dest: arg_cong[where f = StringToNumber])
  next
    case (CStr s)
    then show ?thesis using assms null StringToNumber_show_int by (cases b) auto
  qed
qed

lemma key_split:
  assumes "a @ CHR ''|'' # x = b @ CHR ''|'' # y" "CHR ''|'' \<notin> set a" "CHR ''|'' \<notin> set b"
  shows "a = b \<and> x = y"
proof -
  let ?P = "\<lambda>c. c \<noteq> CHR ''|''"
  have "takeWhile ?P (a @ CHR ''|'' # x) = a @ takeWhile ?P (CHR ''|'' # x)"
    by (rule takeWhile_append2) (use assms(2) in auto)
  then have 1: "takeWhile ?P (a @ CHR ''|'' # x) = a" by simp
  have "takeWhile ?P (b @ CHR ''|'' # y) = b @ takeWhile ?P (CHR ''|'' # y)"
    by (rule takeWhile_append2) (use assms(3) in auto)
  then have 2: "takeWhile ?P (b @ CHR ''|'' # y) = b" by simp
  from 1 2 have "a = b" using assms(1) by simp
  then show ?thesis using assms(1) by simp
qed

lemma group_push_inv:
  assumes "\<forall>p\<in>set g. snd p \<noteq> [] \<and> (\<forall>r\<in>set (snd p). P (fst p) r)" and "P k x"
  shows "\<forall>p\<in>set (group_push g k x). snd p \<noteq> [] \<and> (\<forall>r\<in>set (snd p). P (fst p) r)"
  using assms(1)
proof (induction g)
  case Nil
  then show ?case using assms(2) by simp
next
  case (Cons q g)
  obtain k' rs where q: "q = (k', rs)" by (cases q)
  from Cons.prems have hq: "rs \<noteq> []" "\<forall>r\<in>set rs. P k' r"
    and hg: "\<forall>p\<in>set g. snd p \<noteq> [] \<and> (\<forall>r\<in>set (snd p). P (fst p) r)"
    using q by simp_all
  show ?case
  proof (cases "k' = k")
    case True
    then have "group_push (q # g) k x = (k', rs @ [x]) # g" using q by simp
    then show ?thesis using hq hg assms(2) True by simp
  next
    case False
    then have "group_push (q # g) k x = (k', rs) # group_push g k x" using q by simp
    then show ?thesis using hq Cons.IH[OF hg] by simp
  qed
qed

lemma group_fold_inv:
  assumes "\<forall>p\<in>set g. snd p \<noteq> [] \<and> (\<forall>r\<in>set (snd p). P (fst p) r)"
    and "\<forall>x\<in>set xs. P (key x) x"
  shows "\<forall>p\<in>set (foldl (\<lambda>g x. group_push g (key x) x) g xs).
           snd p \<noteq> [] \<and> (\<forall>r\<in>set (snd p). P (fst p) r)"
  using assms
proof (induction xs arbitrary: g)
  case Nil
  then show ?case by simp
next
  case (Cons x xs)
  have "\<forall>p\<in>set (group_push g (key x) x). snd p \<noteq> [] \<and> (\<forall>r\<in>set (snd p). P (fst p) r)"
    using Cons.prems by (intro group_push_inv) simp_all
  then show ?case using Cons.IH Cons.prems(2) by simp
qed

lemma daily_groups_rows:
  assumes "(k, rows) \<in> set (daily_groups mixingData)"
  shows "rows \<noteq> []" and "\<forall>r\<in>set rows. daily_group_key r = k \<and> r \<in> set mixingData"
proof -
  have "\<forall>p\<in>set (foldl (\<lambda>g x. group_push g (daily_group_key x) x) [] mixingData).
          snd p \<noteq> [] \<and> (\<forall>r\<in>set (snd p). daily_group_key r = fst p \<and> r \<in> set mixingData)"
    by (rule group_fold_inv) simp_all
  then show "rows \<noteq> []" and "\<forall>r\<in>set rows. daily_group_key r = k \<and> r \<in> set mixingData"
    using assms unfolding daily_groups_def by force+
qed

lemma same_key_numeric:
  assumes "daily_group_key r = daily_group_key r'"
    and "cell_Number (mixing_no r) \<noteq> NaN" "cell_Number (mixing_no r') \<noteq> NaN"
  shows "cell_Number (mixing_no r) = cell_Number (mixing_no r')"
proof -
  have "cell_String (mixing_no r) = cell_String (mixing_no r')"
    using key_split[of "cell_String (mixing_no r)" "opt_String (cotton r)"
                       "cell_String (mixing_no r')" "opt_String (cotton r')"]
      assms cell_numeric_no_bar by (simp add: daily_group_key_def)
  then show ?thesis using assms(2,3) by (rule cell_same_text)
qed

lemma same_key_text:
  assumes "daily_group_key r = daily_group_key r'"
    and "CHR ''|'' \<notin> set (cell_String (mixing_no r))" "CHR ''|'' \<notin> set (cell_String (mixing_no r'))"
  shows "cell_String (mixing_no r) = cell_String (mixing_no r') \<and> opt_String (cotton r) = opt_String (cotton r')"
  using key_split[of "cell_String (mixing_no r)" "opt_String (cotton r)"
                     "cell_String (mixing_no r')" "opt_String (cotton r')"] assms
  by (simp add: daily_group_key_def)

lemma numeric_cells_set: "set (numeric_cells cs) = {n. \<exists>c\<in>set cs. cell_Number c = Fin n}"
  by (auto simp: numeric_cells_def split: jnum.splits)

lemma mixingNumbers_set:
  "set (mixingNumbers_of cs) = {n. \<exists>c\<in>set cs. cell_Number c = Fin n}"
  by (simp add: mixingNumbers_of_def numeric_cells_set)

lemma all_equal_Min_Max:
  assumes "xs \<noteq> []" "\<forall>a\<in>set xs. \<forall>b\<in>set xs. a = b"
  shows "Min (set xs) = hd xs" "Max (set xs) = hd xs"
proof -
  have "set xs = {hd xs}" using assms by (cases xs) auto
  then show "Min (set xs) = hd xs" "Max (set xs) = hd xs" by simp_all
qed

lemma daily_entry_fields:
  assumes "rows \<noteq> []" "e \<in> set (daily_entry h lookup lotResults table rows)"
  shows "entry_mixingNumbers e = mixingNumbers_of (map mixing_no rows)"
    and "mixing_start e = (if mixingNumbers_of (map mixing_no rows) \<noteq> []
                           then Some (Min (set (mixingNumbers_of (map mixing_no rows)))) else None)"
    and "mixing_end e = (if mixingNumbers_of (map mixing_no rows) \<noteq> []
                         then Some (Max (set (mixingNumbers_of (map mixing_no rows)))) else None)"
    and "entry_mixing_no e = mixingRange_of (mixing_no (hd rows)) (mixing_start e) (mixing_end e)"
  using assms by (cases rows; simp add: daily_entry_def Let_def)+

lemma daily_entry_range:
  assumes g: "(k, rows) \<in> set (daily_groups mixingData)"
    and e: "e \<in> set (daily_entry h lookup lotResults table rows)"
  shows "range_ok (mixing_no ` set mixingData) e"
proof -
  note gr = daily_groups_rows[OF g]
  note f = daily_entry_fields[OF gr(1) e]
  let ?ns = "mixingNumbers_of (map mixing_no rows)"
  have eq: "\<forall>a\<in>set ?ns. \<forall>b\<in>set ?ns. a = b"
  proof (intro ballI)
    fix a b assume "a \<in> set ?ns" "b \<in> set ?ns"
    then obtain r r' where r: "r \<in> set rows" "cell_Number (mixing_no r) = Fin a"
      and r': "r' \<in> set rows" "cell_Number (mixing_no r') = Fin b"
      by (auto simp: mixingNumbers_set)
    have "daily_group_key r = daily_group_key r'" using gr(2) r(1) r'(1) by simp
    from same_key_numeric[OF this] r(2) r'(2) show "a = b" by simp
  qed
  have "hd rows \<in> set rows" using gr(1) by simp
  then have row0: "mixing_no (hd rows) \<in> mixing_no ` set mixingData" using gr(2) by blast
  show ?thesis
  proof (cases "?ns = []")
    case True
    then have "mixing_start e = None" "mixing_end e = None" "entry_mixingNumbers e = []"
      using f by simp_all
    then show ?thesis using f(4) row0 by (simp add: range_ok_def mixingRange_of_def)
  next
    case False
    note mm = all_equal_Min_Max[OF False eq]
    have s: "mixing_start e = Some (hd ?ns)" "mixing_end e = Some (hd ?ns)"
      using f(2,3) False mm by simp_all
    have "\<forall>n\<in>set ?ns. n = hd ?ns" using eq False by (simp add: hd_in_set)
    then have "\<forall>n\<in>set (entry_mixingNumbers e). mixing_start e = Some n"
      using f(1) s(1) by simp
    then show ?thesis using f(4) s by (simp add: range_ok_def mixingRange_of_def)
  qed
qed

lemma daily_entries_range:
  assumes "e \<in> set (daily_entries h issueData mixingData lotResults table)"
  shows "range_ok (mixing_no ` set mixingData) e"
proof -
  from assms obtain k rows where "(k, rows) \<in> set (daily_groups mixingData)"
    and "e \<in> set (daily_entry h (build_issueDateLookup issueData) lotResults table rows)"
    by (auto simp: daily_entries_def)
  then show ?thesis by (rule daily_entry_range)
qed

lemma annotate_entry_range [simp]:
  "mixing_start (annotate_entry st prev e) = mixing_start e"
  "mixing_end (annotate_entry st prev e) = mixing_end e"
  "entry_mixingNumbers (annotate_entry st prev e) = entry_mixingNumbers e"
  by (simp_all add: annotate_entry_def Let_def split: option.splits)

lemma range_ok_annotate [simp]: "range_ok raws (annotate_entry st prev e) = range_ok raws e"
  by (simp add: range_ok_def cong: option.case_cong)

lemma group_fold_val_inv:
  assumes "\<forall>p\<in>set g. snd p \<noteq> [] \<and> (\<forall>r\<in>set (snd p). P (fst p) r)"
    and "\<forall>x\<in>set xs. P (key x) (val x)"
  shows "\<forall>p\<in>set (foldl (\<lambda>g x. group_push g (key x) (val x)) g xs).
           snd p \<noteq> [] \<and> (\<forall>r\<in>set (snd p). P (fst p) r)"
  using assms
proof (induction xs arbitrary: g)
  case Nil
  then show ?case by simp
next
  case (Cons x xs)
  have "\<forall>p\<in>set (group_push g (key x) (val x)). snd p \<noteq> [] \<and> (\<forall>r\<in>set (snd p). P (fst p) r)"
    using Cons.prems by (intro group_push_inv) simp_all
  then show ?case using Cons.IH Cons.prems(2) by simp
qed

lemma continuityGroups_records:
  assumes "p \<in> set (continuityGroups h es)" "r \<in> set (snd p)"
  shows "rec_index r < length es \<and> rec_entry r = es ! rec_index r"
proof -
  let ?key = "\<lambda>x :: nat \<times> summary_entry. signature_of (snd x)"
  let ?val = "\<lambda>x :: nat \<times> summary_entry. make_record h (fst x) (snd x)"
  have f: "continuityGroups h es = foldl (\<lambda>g x. group_push g (?key x) (?val x)) [] (enumerate 0 es)"
    by (simp add: continuityGroups_def case_prod_unfold)
  have "\<forall>p\<in>set (foldl (\<lambda>g x. group_push g (?key x) (?val x)) [] (enumerate 0 es)).
          snd p \<noteq> [] \<and> (\<forall>r\<in>set (snd p). rec_index r < length es \<and> rec_entry r = es ! rec_index r)"
  proof (rule group_fold_val_inv[where P = "\<lambda>k r. rec_index r < length es \<and> rec_entry r = es ! rec_index r"])
    show "\<forall>p\<in>set []. snd p \<noteq> [] \<and> (\<forall>r\<in>set (snd p). rec_index r < length es \<and> rec_entry r = es ! rec_index r)"
      by simp
    show "\<forall>x\<in>set (enumerate 0 es). rec_index (?val x) < length es \<and> rec_entry (?val x) = es ! rec_index (?val x)"
      by (auto simp: make_record_def in_set_enumerate_eq)
  qed
  then show ?thesis using assms unfolding f by blast
qed

lemma annotate_set:
  "p \<in> set (annotate h st prev rs) \<Longrightarrow>
     \<exists>r\<in>set rs. \<exists>st' prev'. fst p = rec_index r \<and> snd p = annotate_entry st' prev' (rec_entry r)"
proof (induction rs arbitrary: st prev)
  case Nil
  then show ?case by simp
next
  case (Cons r rs)
  let ?e = "annotate_entry st prev (rec_entry r)"
  from Cons.prems have "p = (rec_index r, ?e)
      \<or> p \<in> set (annotate h \<lparr>lastVersion = entry_versionNumber ?e, lastTimestamp = timestamp_of h ?e\<rparr> (Some ?e) rs)"
    by (simp add: Let_def)
  then show ?case
  proof
    assume "p = (rec_index r, ?e)"
    then show ?thesis by auto
  next
    assume "p \<in> set (annotate h \<lparr>lastVersion = entry_versionNumber ?e, lastTimestamp = timestamp_of h ?e\<rparr> (Some ?e) rs)"
    from Cons.IH[OF this] show ?thesis by auto
  qed
qed

lemma track_continuity_range:
  assumes "\<forall>e\<in>set es. range_ok raws e"
  shows "\<forall>e\<in>set (track_continuity h es). range_ok raws e"
proof
  fix e assume "e \<in> set (track_continuity h es)"
  let ?updates = "concat (map (\<lambda>(signature, records). annotate h stats0 None (sorted_records records))
                              (continuityGroups h es))"
  from \<open>e \<in> set (track_continuity h es)\<close> obtain i e0 where ie: "(i, e0) \<in> set (enumerate 0 es)"
    and e: "e = (case map_of ?updates i of Some e' \<Rightarrow> e' | None \<Rightarrow> e0)"
    by (auto simp: track_continuity_def Let_def)
  from ie have e0: "e0 = es ! i" "i < length es" by (auto simp: in_set_enumerate_eq)
  show "range_ok raws e"
  proof (cases "map_of ?updates i")
    case None
    then show ?thesis using e e0 assms by simp
  next
    case (Some e')
    then have "(i, e') \<in> set ?updates" by (rule map_of_SomeD)
    then obtain p where p: "p \<in> set (continuityGroups h es)"
      and u: "(i, e') \<in> set (annotate h stats0 None (sorted_records (snd p)))"
      by (auto simp: case_prod_beta)
    from annotate_set[OF u] obtain r st' prev' where r: "r \<in> set (sorted_records (snd p))"
      and i: "i = rec_index r" and e': "e' = annotate_entry st' prev' (rec_entry r)" by auto
    from r have "r \<in> set (snd p)" by (simp add: sorted_records_def js_sort_set)
    from continuityGroups_records[OF p this] have "rec_entry r = es ! i" using i by simp
    then have "range_ok raws e' = range_ok raws (es ! i)" using e' by simp
    then show ?thesis using e Some assms e0 by simp
  qed
qed

lemma daily_summary_subset:
  "set (daily_summary h mixingFilters issueData mixingData lotResults table)
     \<subseteq> set (track_continuity h (daily_entries h issueData mixingData lotResults table))"
  by (auto simp: daily_summary_def Let_def mixing_filter_def js_sort_set)

text \<open>
  Claim C10. The daily report groups the rows by the key made of the mixing number, a bar
  and the blend code. The rows of a group share that key; their mixing numbers that are
  numbers are one and the same number, and rows whose mixing number holds no bar share the
  mixing number and the blend code. So every entry of the daily summary has at most one
  numeric mixing number, its smallest and largest mixing number coincide, and its mixing
  range is the rendering of that single number (or, when no mixing number of the group is
  a number, the mixing number of a row as fetched): never a span from a smaller to a
  larger number.
\<close>

theorem daily_single_mixing_number:
  "(\<forall>mixingData. \<forall>p\<in>set (daily_groups mixingData).
      snd p \<noteq> [] \<and> set (snd p) \<subseteq> set mixingData \<and>
      (\<forall>r\<in>set (snd p). daily_group_key r = fst p) \<and>
      (\<forall>r\<in>set (snd p). \<forall>r'\<in>set (snd p).
          cell_Number (mixing_no r) \<noteq> NaN \<and> cell_Number (mixing_no r') \<noteq> NaN \<longrightarrow>
          cell_Number (mixing_no r) = cell_Number (mixing_no r')) \<and>
      (\<forall>r\<in>set (snd p). \<forall>r'\<in>set (snd p).
          CHR ''|'' \<notin> set (cell_String (mixing_no r)) \<and> CHR ''|'' \<notin> set (cell_String (mixing_no r')) \<longrightarrow>
          cell_String (mixing_no r) = cell_String (mixing_no r')
            \<and> opt_String (cotton r) = opt_String (cotton r'))) \<and>
   (\<forall>h mixingFilters issueData mixingData lotResults table.
      \<forall>e\<in>set (daily_summary h mixingFilters issueData mixingData lotResults table).
        mixing_start e = mixing_end e \<and>
        (\<forall>n\<in>set (entry_mixingNumbers e). mixing_start e = Some n) \<and>
        (case mixing_start e of
           Some n \<Rightarrow> entry_mixing_no e = CStr (show_num n)
         | None \<Rightarrow> entry_mixing_no e \<in> mixing_no ` set mixingData))"
proof (rule conjI)
  show "\<forall>mixingData. \<forall>p\<in>set (daily_groups mixingData).
      snd p \<noteq> [] \<and> set (snd p) \<subseteq> set mixingData \<and>
      (\<forall>r\<in>set (snd p). daily_group_key r = fst p) \<and>
      (\<forall>r\<in>set (snd p). \<forall>r'\<in>set (snd p).
          cell_Number (mixing_no r) \<noteq> NaN \<and> cell_Number (mixing_no r') \<noteq> NaN \<longrightarrow>
          cell_Number (mixing_no r) = cell_Number (mixing_no r')) \<and>
      (\<forall>r\<in>set (snd p). \<forall>r'\<in>set (snd p).
          CHR ''|'' \<notin> set (cell_String (mixing_no r)) \<and> CHR ''|'' \<notin> set (cell_String (mixing_no r')) \<longrightarrow>
          cell_String (mixing_no r) = cell_String (mixing_no r')
            \<and> opt_String (cotton r) = opt_String (cotton r'))"
  proof (intro allI ballI conjI impI)
    fix mixingData and p :: "string \<times> mixing_row list"
    assume p: "p \<in> set (daily_groups mixingData)"
    then have g: "(fst p, snd p) \<in> set (daily_groups mixingData)" by simp
    note gr = daily_groups_rows[OF g]
    show "snd p \<noteq> []" by (rule gr(1))
    show "set (snd p) \<subseteq> set mixingData" using gr(2) by blast
    show "daily_group_key r = fst p" if "r \<in> set (snd p)" for r using gr(2) that by blast
    { fix r r' assume r: "r \<in> set (snd p)" "r' \<in> set (snd p)"
      then have k: "daily_group_key r = daily_group_key r'" using gr(2) by simp
      { assume "cell_Number (mixing_no r) \<noteq> NaN \<and> cell_Number (mixing_no r') \<noteq> NaN"
        then show "cell_Number (mixing_no r) = cell_Number (mixing_no r')"
          using same_key_numeric[OF k] by simp }
      { assume "CHR ''|'' \<notin> set (cell_String (mixing_no r)) \<and> CHR ''|'' \<notin> set (cell_String (mixing_no r'))"
        then have "cell_String (mixing_no r) = cell_String (mixing_no r')
              \<and> opt_String (cotton r) = opt_String (cotton r')"
          using same_key_text[OF k] by simp
        then show "cell_String (mixing_no r) = cell_String (mixing_no r')"
          and "opt_String (cotton r) = opt_String (cotton r')" by simp_all } }
  qed
  show "\<forall>h mixingFilters issueData mixingData lotResults table.
      \<forall>e\<in>set (daily_summary h mixingFilters issueData mixingData lotResults table).
        mixing_start e = mixing_end e \<and>
        (\<forall>n\<in>set (entry_mixingNumbers e). mixing_start e = Some n) \<and>
        (case mixing_start e of
           Some n \<Rightarrow> entry_mixing_no e = CStr (show_num n)
         | None \<Rightarrow> entry_mixing_no e \<in> mixing_no ` set mixingData)"
  proof (intro allI ballI)
    fix h mixingFilters issueData mixingData lotResults table e
    assume "e \<in> set (daily_summary h mixingFilters issueData mixingData lotResults table)"
    then have "e \<in> set (track_continuity h (daily_entries h issueData mixingData lotResults table))"
      using daily_summary_subset by blast
    moreover have "\<forall>e\<in>set (daily_entries h issueData mixingData lotResults table).
        range_ok (mixing_no ` set mixingData) e"
      using daily_entries_range by blast
    ultimately have "range_ok (mixing_no ` set mixingData) e"
      using track_continuity_range by blast
    then show "mixing_start e = mixing_end e \<and>
          (\<forall>n\<in>set (entry_mixingNumbers e). mixing_start e = Some n) \<and>
          (case mixing_start e of
             Some n \<Rightarrow> entry_mixing_no e = CStr (show_num n)
           | None \<Rightarrow> entry_mixing_no e \<in> mixing_no ` set mixingData)"
      unfolding range_ok_def .
  qed
qed

theorem daily_single_mixing_number_witness:
  "map entry_mixing_no
     (daily_summary plain_host [] versioned_issues versioned_rows (example_lots @ blend_lots) blend_codes)
     = [CStr ''12'', CStr ''11'', CStr ''10''] \<and>
   list_all (\<lambda>e. mixing_start e = mixing_end e)
     (daily_summary plain_host [] versioned_issues versioned_rows (example_lots @ blend_lots) blend_codes) \<and>
   map fst (daily_groups versioned_rows) = [''10|25_31_V1'', ''11|25_31_V2'', ''12|25_31_V3''] \<and>
   list_all (\<lambda>p. list_all (\<lambda>r. daily_group_key r = fst p) (snd p)) (daily_groups versioned_rows)"
proof -
  have 1: "map entry_mixing_no
     (daily_summary plain_host [] versioned_issues versioned_rows (example_lots @ blend_lots) blend_codes)
     = [CStr ''12'', CStr ''11'', CStr ''10'']" by code_simp
  have 2: "map fst (daily_groups versioned_rows) = [''10|25_31_V1'', ''11|25_31_V2'', ''12|25_31_V3'']"
    by code_simp
  from daily_single_mixing_number have g: "\<forall>p\<in>set (daily_groups versioned_rows).
      \<forall>r\<in>set (snd p). daily_group_key r = fst p"
    by blast
  from daily_single_mixing_number have s: "\<forall>e\<in>set (daily_summary plain_host [] versioned_issues
      versioned_rows (example_lots @ blend_lots) blend_codes). mixing_start e = mixing_end e"
    by blast
  from 1 2 g s show ?thesis by (simp add: list_all_iff)
qed

end
